theory Spec2Isabelle
  imports Main
begin

section \<open>The specs data model\<close>

text \<open>
  The types of package \<open>specs\<close> are declared outside the files at hand; the records below
  hold the fields that the functions verified here read and write. A Go pointer that the
  code compares with \<open>nil\<close> is an \<open>option\<close>.
\<close>

datatype ptype =
  TypeBool | TypeInt32 | TypeInt64 | TypeUint32 | TypeUint64 | TypeFloat | TypeDouble
  | TypeString | TypeBytes | TypeEnum | TypeMessage | TypeArray

datatype label = LabelRequired | LabelOptional | LabelRepeated

datatype val = VBool bool | VInt int | VString string

record property_reference =
  Resource :: string
  Path :: string

datatype property =
  Property (Type: ptype) (Label: label) (Default: "val option")
    (Reference: "property_reference option") (Nested: "(string \<times> property) list")

record parameter_map =
  Header :: "(string \<times> property) list"
  Body :: "property option"
  Functions :: "string list"

record on_error =
  Response :: "parameter_map option"
  Status :: "property option"
  Message :: "property option"
  Params :: "string \<rightharpoonup> property option"

record call =
  Call_Service :: string
  Call_Method :: string
  Call_Request :: "parameter_map option"
  Call_Response :: "parameter_map option"

text \<open>
  Modelled from the spec: the store of an invocation is declared outside the files at hand;
  the spec has it map a resource and a path to a runtime value.
\<close>

type_synonym store = "string \<times> string \<rightharpoonup> val"

text \<open>
  A node: \<open>ID\<close> and \<open>OnError\<close> are read by packages \<open>checks\<close> and \<open>hcl\<close>, \<open>Name\<close>,
  \<open>Call\<close> and \<open>Rollback\<close> by package \<open>constructor\<close>. A flow is reached through its getters.
\<close>

record node =
  ID :: string
  Name :: string
  Call :: "call option"
  Rollback :: "call option"
  OnError :: "on_error option"

record flow =
  GetName :: string
  GetNodes :: "node list"
  GetInput :: parameter_map
  GetOutput :: parameter_map
  GetForward :: "call option"
  GetOnError :: "on_error option"

section \<open>Package checks: duplicates and reserved keywords\<close>

text \<open>
  Modelled from the spec: the constants \<open>template.InputResource\<close>, \<open>template.ErrorResource\<close>
  and \<open>template.StackResource\<close> are declared outside the files at hand; the spec names the
  reserved resources \<open>input\<close>, \<open>error\<close> and \<open>stack\<close>.
\<close>

definition InputResource :: string where
  "InputResource = ''input''"

definition ErrorResource :: string where
  "ErrorResource = ''error''"

definition StackResource :: string where
  "StackResource = ''stack''"

definition ReservedKeywords :: "string list" where
  "ReservedKeywords = [InputResource, ErrorResource, StackResource]"

text \<open>The three errors that the checks construct, and the text each one carries.\<close>

datatype check_error =
  DuplicateFlow string
  | DuplicateResource string string
  | ReservedKeyword string

fun check_error_text :: "check_error \<Rightarrow> string" where
  "check_error_text (DuplicateFlow name) = ''duplicate flow '' @ [CHR 0x27] @ name @ [CHR 0x27]"
| "check_error_text (DuplicateResource nid flow) =
     ''duplicate resource '' @ [CHR 0x27] @ nid @ [CHR 0x27] @ '' in flow '' @ [CHR 0x27] @ flow @ [CHR 0x27]"
| "check_error_text (ReservedKeyword nid) =
     ''flow with the name '' @ [CHR 0x27] @ nid @ [CHR 0x27] @ '' is a reserved keyword''"

fun is_duplicate_error :: "check_error \<Rightarrow> bool" where
  "is_duplicate_error (DuplicateFlow name) = True"
| "is_duplicate_error (DuplicateResource nid flow) = True"
| "is_duplicate_error (ReservedKeyword nid) = False"

fun is_reserved_error :: "check_error \<Rightarrow> bool" where
  "is_reserved_error (ReservedKeyword nid) = True"
| "is_reserved_error (DuplicateFlow name) = False"
| "is_reserved_error (DuplicateResource nid flow) = False"

text \<open>The inner loop of \<open>NodeDuplicates\<close>: the first keyword equal to the node id returns.\<close>

fun reserved_loop :: "string list \<Rightarrow> string \<Rightarrow> check_error option" where
  "reserved_loop [] nid = None"
| "reserved_loop (key # keys) nid =
     (if key \<noteq> nid then reserved_loop keys nid else Some (ReservedKeyword nid))"

text \<open>
  The loop of \<open>NodeDuplicates\<close> over the nodes; \<open>calls\<close> is the \<open>sync.Map\<close>, and
  \<open>LoadOrStore\<close> reports a duplicate when the key is already stored.
\<close>

fun NodeDuplicates_loop :: "string \<Rightarrow> (string \<rightharpoonup> node) \<Rightarrow> node list \<Rightarrow> check_error option" where
  "NodeDuplicates_loop flow calls [] = None"
| "NodeDuplicates_loop flow calls (n # nodes) =
     (case calls (ID n) of
        Some seen \<Rightarrow> Some (DuplicateResource (ID n) flow)
      | None \<Rightarrow>
          (case reserved_loop ReservedKeywords (ID n) of
             Some err \<Rightarrow> Some err
           | None \<Rightarrow> NodeDuplicates_loop flow (calls(ID n \<mapsto> n)) nodes))"

definition NodeDuplicates :: "string \<Rightarrow> node list \<Rightarrow> check_error option" where
  "NodeDuplicates flow nodes = NodeDuplicates_loop flow Map.empty nodes"

fun FlowDuplicates_loop :: "(string \<rightharpoonup> flow) \<Rightarrow> flow list \<Rightarrow> check_error option" where
  "FlowDuplicates_loop tracker [] = None"
| "FlowDuplicates_loop tracker (f # flows) =
     (case tracker (GetName f) of
        Some seen \<Rightarrow> Some (DuplicateFlow (GetName f))
      | None \<Rightarrow>
          (case NodeDuplicates (GetName f) (GetNodes f) of
             Some err \<Rightarrow> Some err
           | None \<Rightarrow> FlowDuplicates_loop (tracker(GetName f \<mapsto> f)) flows))"

definition FlowDuplicates :: "flow list \<Rightarrow> check_error option" where
  "FlowDuplicates flows = FlowDuplicates_loop Map.empty flows"

text \<open>A node whose id is one of the reserved keywords.\<close>

definition reserved_id :: "node \<Rightarrow> bool" where
  "reserved_id n = (ID n \<in> set ReservedKeywords)"

text \<open>Nodes and flows with nothing but an id or a name and a node list, for the examples.\<close>

definition empty_parameter_map :: parameter_map where
  "empty_parameter_map = \<lparr>Header = [], Body = None, Functions = []\<rparr>"

definition mk_node :: "string \<Rightarrow> node" where
  "mk_node nid = \<lparr>ID = nid, Name = nid, Call = None, Rollback = None, OnError = None\<rparr>"

definition mk_flow :: "string \<Rightarrow> node list \<Rightarrow> flow" where
  "mk_flow name nodes =
     \<lparr>GetName = name, GetNodes = nodes, GetInput = empty_parameter_map,
      GetOutput = empty_parameter_map, GetForward = None, GetOnError = None\<rparr>"

subsection \<open>What the two loops return\<close>

lemma reserved_loop_None: "reserved_loop keys nid = None \<longleftrightarrow> nid \<notin> set keys"
  by (induction keys) auto

lemma reserved_loop_Some: "reserved_loop keys nid = Some e \<Longrightarrow> e = ReservedKeyword nid \<and> nid \<in> set keys"
  by (induction keys) (auto split: if_splits)

lemma NodeDuplicates_loop_None:
  "NodeDuplicates_loop fl calls nodes = None \<longleftrightarrow>
     distinct (map ID nodes) \<and> (\<forall>n\<in>set nodes. calls (ID n) = None \<and> \<not> reserved_id n)"
proof (induction nodes arbitrary: calls)
  case Nil
  then show ?case by simp
next
  case (Cons n nodes)
  show ?case
  proof (cases "calls (ID n)")
    case (Some seen)
    then show ?thesis by simp
  next
    case None
    show ?thesis
    proof (cases "reserved_loop ReservedKeywords (ID n)")
      case (Some err)
      then have "reserved_id n"
        using reserved_loop_None [of ReservedKeywords "ID n"] by (simp add: reserved_id_def)
      with None Some show ?thesis by simp
    next
      case rn: None
      then have "\<not> reserved_id n"
        by (simp add: reserved_loop_None reserved_id_def)
      have step: "NodeDuplicates_loop fl calls (n # nodes) =
          NodeDuplicates_loop fl (calls(ID n \<mapsto> n)) nodes"
        using None rn by simp
      have upd: "(calls(ID n \<mapsto> n)) (ID m) = None \<longleftrightarrow> ID m \<noteq> ID n \<and> calls (ID m) = None" for m
        by simp
      show ?thesis
        unfolding step Cons.IH upd using None \<open>\<not> reserved_id n\<close> by (auto simp: image_iff)
    qed
  qed
qed

lemma NodeDuplicates_loop_reserved:
  "NodeDuplicates_loop fl calls nodes = Some e \<Longrightarrow> is_reserved_error e \<Longrightarrow>
     \<exists>n\<in>set nodes. reserved_id n \<and> e = ReservedKeyword (ID n)"
proof (induction nodes arbitrary: calls)
  case Nil
  then show ?case by simp
next
  case (Cons n nodes)
  then show ?case
    by (auto split: option.splits dest!: reserved_loop_Some simp: reserved_id_def)
qed

lemma NodeDuplicates_loop_duplicate:
  "NodeDuplicates_loop fl calls nodes = Some e \<Longrightarrow> is_duplicate_error e \<Longrightarrow>
     \<not> distinct (map ID nodes) \<or> (\<exists>n\<in>set nodes. calls (ID n) \<noteq> None)"
proof (induction nodes arbitrary: calls)
  case Nil
  then show ?case by simp
next
  case (Cons n nodes)
  show ?case
  proof (cases "calls (ID n)")
    case (Some seen)
    then show ?thesis by simp
  next
    case None
    show ?thesis
    proof (cases "reserved_loop ReservedKeywords (ID n)")
      case (Some err)
      with None Cons.prems show ?thesis
        by (auto dest!: reserved_loop_Some)
    next
      case rn: None
      with None Cons.prems have "NodeDuplicates_loop fl (calls(ID n \<mapsto> n)) nodes = Some e"
        by simp
      from Cons.IH [OF this Cons.prems(2)]
      have "\<not> distinct (map ID nodes) \<or> (\<exists>m\<in>set nodes. ID m = ID n \<or> calls (ID m) \<noteq> None)"
        by (auto split: if_splits)
      then show ?thesis by (auto simp: image_iff) metis
    qed
  qed
qed

lemma check_error_kinds: "is_duplicate_error e \<noteq> is_reserved_error e"
  by (cases e) auto

lemma FlowDuplicates_loop_None:
  "FlowDuplicates_loop tracker flows = None \<longleftrightarrow>
     distinct (map GetName flows) \<and>
     (\<forall>f\<in>set flows. tracker (GetName f) = None \<and> distinct (map ID (GetNodes f)) \<and>
        (\<forall>n\<in>set (GetNodes f). \<not> reserved_id n))"
proof (induction flows arbitrary: tracker)
  case Nil
  then show ?case by simp
next
  case (Cons f flows)
  show ?case
  proof (cases "tracker (GetName f)")
    case (Some seen)
    then show ?thesis by simp
  next
    case None
    show ?thesis
    proof (cases "NodeDuplicates (GetName f) (GetNodes f)")
      case (Some err)
      then have "\<not> (distinct (map ID (GetNodes f)) \<and> (\<forall>n\<in>set (GetNodes f). \<not> reserved_id n))"
        using NodeDuplicates_loop_None [of "GetName f" Map.empty "GetNodes f"]
        by (simp add: NodeDuplicates_def)
      with None Some show ?thesis by auto
    next
      case nn: None
      then have "distinct (map ID (GetNodes f)) \<and> (\<forall>n\<in>set (GetNodes f). \<not> reserved_id n)"
        using NodeDuplicates_loop_None [of "GetName f" Map.empty "GetNodes f"]
        by (simp add: NodeDuplicates_def)
      then have ok: "distinct (map ID (GetNodes f))" "\<forall>n\<in>set (GetNodes f). \<not> reserved_id n"
        by simp_all
      have step: "FlowDuplicates_loop tracker (f # flows) =
          FlowDuplicates_loop (tracker(GetName f \<mapsto> f)) flows"
        using None nn by simp
      have upd: "(tracker(GetName f \<mapsto> f)) (GetName g) = None \<longleftrightarrow>
          GetName g \<noteq> GetName f \<and> tracker (GetName g) = None" for g
        by simp
      show ?thesis
        unfolding step Cons.IH upd using None ok by (auto simp: image_iff)
    qed
  qed
qed

lemma FlowDuplicates_loop_reserved:
  "FlowDuplicates_loop tracker flows = Some e \<Longrightarrow> is_reserved_error e \<Longrightarrow>
     \<exists>f\<in>set flows. \<exists>n\<in>set (GetNodes f). reserved_id n \<and> e = ReservedKeyword (ID n)"
proof (induction flows arbitrary: tracker)
  case Nil
  then show ?case by simp
next
  case (Cons f flows)
  then show ?case
    by (auto split: option.splits simp: NodeDuplicates_def dest: NodeDuplicates_loop_reserved)
qed

lemma FlowDuplicates_loop_duplicate:
  "FlowDuplicates_loop tracker flows = Some e \<Longrightarrow> is_duplicate_error e \<Longrightarrow>
     \<not> distinct (map GetName flows) \<or> (\<exists>f\<in>set flows. tracker (GetName f) \<noteq> None)
     \<or> (\<exists>f\<in>set flows. \<not> distinct (map ID (GetNodes f)))"
proof (induction flows arbitrary: tracker)
  case Nil
  then show ?case by simp
next
  case (Cons f flows)
  show ?case
  proof (cases "tracker (GetName f)")
    case (Some seen)
    then show ?thesis by simp
  next
    case None
    show ?thesis
    proof (cases "NodeDuplicates (GetName f) (GetNodes f)")
      case (Some err)
      with None Cons.prems have "err = e" by simp
      with Some Cons.prems(2) have "\<not> distinct (map ID (GetNodes f))"
        using NodeDuplicates_loop_duplicate [of "GetName f" Map.empty "GetNodes f" e]
        by (auto simp: NodeDuplicates_def)
      then show ?thesis by simp
    next
      case nn: None
      with None Cons.prems have "FlowDuplicates_loop (tracker(GetName f \<mapsto> f)) flows = Some e"
        by simp
      from Cons.IH [OF this Cons.prems(2)]
      have "\<not> distinct (map GetName flows)
          \<or> (\<exists>g\<in>set flows. GetName g = GetName f \<or> tracker (GetName g) \<noteq> None)
          \<or> (\<exists>g\<in>set flows. \<not> distinct (map ID (GetNodes g)))"
        by (auto split: if_splits)
      then show ?thesis by (auto simp: image_iff) metis
    qed
  qed
qed

lemma reserved_id_iff: "reserved_id n \<longleftrightarrow> ID n \<in> {''input'', ''error'', ''stack''}"
  by (auto simp: reserved_id_def ReservedKeywords_def InputResource_def ErrorResource_def
      StackResource_def)


lemma FlowDuplicates_None:
  "FlowDuplicates flows = None \<longleftrightarrow>
     distinct (map GetName flows) \<and>
     (\<forall>f\<in>set flows. distinct (map ID (GetNodes f)) \<and> (\<forall>n\<in>set (GetNodes f). \<not> reserved_id n))"
  by (simp add: FlowDuplicates_def FlowDuplicates_loop_None)

lemma FlowDuplicates_duplicate_error:
  "FlowDuplicates flows = Some e \<Longrightarrow> is_duplicate_error e \<Longrightarrow>
     \<not> distinct (map GetName flows) \<or> (\<exists>f\<in>set flows. \<not> distinct (map ID (GetNodes f)))"
  using FlowDuplicates_loop_duplicate [of Map.empty flows e] by (simp add: FlowDuplicates_def)

lemma FlowDuplicates_reserved_error:
  "FlowDuplicates flows = Some e \<Longrightarrow> is_reserved_error e \<Longrightarrow>
     \<exists>f\<in>set flows. \<exists>n\<in>set (GetNodes f). reserved_id n"
  using FlowDuplicates_loop_reserved [of Map.empty flows e] by (auto simp: FlowDuplicates_def)



subsection \<open>Duplicates (claim C6)\<close>

text \<open>
  Claim C6, as the code has it. Loading fails whenever two flows share a name or two nodes
  of one flow share an id. The error is a duplicate error when no node id is reserved;
  a reserved id that the loops meet before the duplicate is reported instead. A manifest
  whose flow names are distinct and whose node ids are distinct per flow never gets a
  duplicate error, and \<open>FlowDuplicates\<close> returns no error for it when no node id is
  reserved either.
\<close>

theorem FlowDuplicates_duplicates:
  "((\<not> distinct (map GetName flows) \<or> (\<exists>f\<in>set flows. \<not> distinct (map ID (GetNodes f))))
      \<longrightarrow> FlowDuplicates flows \<noteq> None)
   \<and> ((\<not> distinct (map GetName flows) \<or> (\<exists>f\<in>set flows. \<not> distinct (map ID (GetNodes f))))
        \<and> (\<forall>f\<in>set flows. \<forall>n\<in>set (GetNodes f). \<not> reserved_id n)
      \<longrightarrow> (\<exists>e. FlowDuplicates flows = Some e \<and> is_duplicate_error e))
   \<and> (distinct (map GetName flows) \<and> (\<forall>f\<in>set flows. distinct (map ID (GetNodes f)))
      \<longrightarrow> (\<forall>e. FlowDuplicates flows = Some e \<longrightarrow> \<not> is_duplicate_error e))
   \<and> (distinct (map GetName flows) \<and> (\<forall>f\<in>set flows. distinct (map ID (GetNodes f)))
        \<and> (\<forall>f\<in>set flows. \<forall>n\<in>set (GetNodes f). \<not> reserved_id n)
      \<longrightarrow> FlowDuplicates flows = None)"
proof (intro conjI impI)
  assume "\<not> distinct (map GetName flows) \<or> (\<exists>f\<in>set flows. \<not> distinct (map ID (GetNodes f)))"
  then show "FlowDuplicates flows \<noteq> None"
    by (auto simp: FlowDuplicates_None)
next
  assume a: "(\<not> distinct (map GetName flows) \<or> (\<exists>f\<in>set flows. \<not> distinct (map ID (GetNodes f))))
      \<and> (\<forall>f\<in>set flows. \<forall>n\<in>set (GetNodes f). \<not> reserved_id n)"
  then have "FlowDuplicates flows \<noteq> None"
    by (auto simp: FlowDuplicates_None)
  then obtain e where e: "FlowDuplicates flows = Some e" by auto
  have "\<not> is_reserved_error e"
    using FlowDuplicates_reserved_error [OF e] a by blast
  then have "is_duplicate_error e"
    using check_error_kinds [of e] by simp
  with e show "\<exists>e. FlowDuplicates flows = Some e \<and> is_duplicate_error e" by blast
next
  assume "distinct (map GetName flows) \<and> (\<forall>f\<in>set flows. distinct (map ID (GetNodes f)))"
  then show "\<forall>e. FlowDuplicates flows = Some e \<longrightarrow> \<not> is_duplicate_error e"
    using FlowDuplicates_duplicate_error by blast
next
  assume "distinct (map GetName flows) \<and> (\<forall>f\<in>set flows. distinct (map ID (GetNodes f)))
        \<and> (\<forall>f\<in>set flows. \<forall>n\<in>set (GetNodes f). \<not> reserved_id n)"
  then show "FlowDuplicates flows = None"
    by (simp add: FlowDuplicates_None)
qed

theorem FlowDuplicates_duplicates_witness:
  "\<not> distinct (map GetName [mk_flow ''todo'' [], mk_flow ''todo'' []])
   \<and> (\<exists>e. FlowDuplicates [mk_flow ''todo'' [], mk_flow ''todo'' []] = Some e \<and> is_duplicate_error e)
   \<and> FlowDuplicates [mk_flow ''todo'' [], mk_flow ''todo'' []] = Some (DuplicateFlow ''todo'')
   \<and> check_error_text (DuplicateFlow ''todo'') = ''duplicate flow '' @ [CHR 0x27] @ ''todo'' @ [CHR 0x27]
   \<and> FlowDuplicates [mk_flow ''todo'' [mk_node ''query'', mk_node ''user'']] = None"
  using FlowDuplicates_duplicates [of "[mk_flow ''todo'' [], mk_flow ''todo'' []]"]
    FlowDuplicates_duplicates [of "[mk_flow ''todo'' [mk_node ''query'', mk_node ''user'']]"]
  by (simp add: mk_flow_def mk_node_def reserved_id_iff FlowDuplicates_def NodeDuplicates_def)

text \<open>
  The claim as stated promises a duplicate error for every manifest with two flows of one
  name. Here the first flow \<open>todo\<close> has a node \<open>input\<close>: \<open>NodeDuplicates\<close> returns the
  reserved keyword error for it before the second flow \<open>todo\<close> is looked at.
\<close>

theorem FlowDuplicates_duplicate_error_counterexample:
  "\<not> distinct (map GetName [mk_flow ''todo'' [mk_node ''input''], mk_flow ''todo'' []])
   \<and> FlowDuplicates [mk_flow ''todo'' [mk_node ''input''], mk_flow ''todo'' []]
       = Some (ReservedKeyword ''input'')
   \<and> \<not> is_duplicate_error (ReservedKeyword ''input'')"
  by (simp add: FlowDuplicates_def NodeDuplicates_def mk_flow_def mk_node_def
      ReservedKeywords_def InputResource_def ErrorResource_def StackResource_def)

subsection \<open>Reserved keywords (claim C7)\<close>




section \<open>Package hcl: the error handling of flows and nodes\<close>

text \<open>
  The \<open>Clone\<close> methods of \<open>specs.Property\<close>, \<open>specs.ParameterMap\<close> and \<open>specs.OnError\<close>
  are declared outside the files at hand, so they are parameters of the model. Each takes
  the receiver, which may be \<open>nil\<close>, and returns the pointer to the clone.
\<close>

record clone_methods =
  CloneProperty :: "property option \<Rightarrow> property option"
  CloneParameterMap :: "parameter_map option \<Rightarrow> parameter_map option"
  CloneOnError :: "on_error option \<Rightarrow> on_error option"

text \<open>
  \<open>DefaultOnError\<close> returns the object behind the pointer it was given, as the caller sees
  it afterwards. For a \<open>nil\<close> pointer the function assigns a fresh object to its own
  parameter only; the caller's pointer stays \<open>nil\<close>.
\<close>

definition DefaultOnError :: "on_error option \<Rightarrow> on_error option" where
  "DefaultOnError err =
     (case err of
        None \<Rightarrow> None
      | Some e \<Rightarrow>
          (let e1 = (if Status e = None
                     then e\<lparr>Status := Some (Property TypeInt64 LabelOptional None
                            (Some \<lparr>Resource = ''error'', Path = ''status''\<rparr>) [])\<rparr>
                     else e);
               e2 = (if Message e1 = None
                     then e1\<lparr>Message := Some (Property TypeString LabelOptional None
                            (Some \<lparr>Resource = ''error'', Path = ''message''\<rparr>) [])\<rparr>
                     else e1)
           in Some e2))"

text \<open>\<open>MergeOnError\<close> returns the left object after the call; \<open>len(left.Params) == 0\<close> is an empty domain.\<close>

definition MergeOnError :: "clone_methods \<Rightarrow> on_error option \<Rightarrow> on_error option \<Rightarrow> on_error option" where
  "MergeOnError c left right =
     (case (left, right) of
        (Some l, Some r) \<Rightarrow>
          (let l1 = (if Message l = None then l\<lparr>Message := CloneProperty c (Message r)\<rparr> else l);
               l2 = (if Status l1 = None then l1\<lparr>Status := CloneProperty c (Status r)\<rparr> else l1);
               l3 = (if dom (Params l2) = {}
                     then l2\<lparr>Params := (\<lambda>key. map_option (CloneProperty c) (Params r key))\<rparr>
                     else l2);
               l4 = (if Response l3 = None
                     then l3\<lparr>Response := CloneParameterMap c (Response r)\<rparr>
                     else l3)
           in Some l4)
      | _ \<Rightarrow> left)"

text \<open>
  \<open>ResolveErrors\<close> updates the flows in place; the model returns them. Reading
  \<open>flow.GetOnError().Response\<close> through a \<open>nil\<close> pointer is a run-time panic.
\<close>

datatype panic = NilPointerDereference

definition ResolveErrors_node :: "clone_methods \<Rightarrow> on_error option \<Rightarrow> node \<Rightarrow> node" where
  "ResolveErrors_node c flow_on_error n =
     (if OnError n = None
      then n\<lparr>OnError := CloneOnError c flow_on_error\<rparr>
      else n\<lparr>OnError := MergeOnError c (OnError n) flow_on_error\<rparr>)"

definition ResolveErrors_flow :: "clone_methods \<Rightarrow> parameter_map option \<Rightarrow> flow \<Rightarrow> panic + flow" where
  "ResolveErrors_flow c err f =
     (case DefaultOnError (GetOnError f) of
        None \<Rightarrow> Inl NilPointerDereference
      | Some e \<Rightarrow>
          (let e1 = (if Response e = None then e\<lparr>Response := CloneParameterMap c err\<rparr> else e)
           in Inr (f\<lparr>GetOnError := Some e1,
                     GetNodes := map (ResolveErrors_node c (Some e1)) (GetNodes f)\<rparr>)))"

fun ResolveErrors :: "clone_methods \<Rightarrow> flow list \<Rightarrow> parameter_map option \<Rightarrow> panic + flow list" where
  "ResolveErrors c [] err = Inr []"
| "ResolveErrors c (f # flows) err =
     (case ResolveErrors_flow c err f of
        Inl p \<Rightarrow> Inl p
      | Inr f' \<Rightarrow>
          (case ResolveErrors c flows err of
             Inl p \<Rightarrow> Inl p
           | Inr flows' \<Rightarrow> Inr (f' # flows')))"

text \<open>
  Modelled from the spec: \<open>ResolveStatusCode\<close> is declared outside the files at hand. The
  spec has the status as an integer computed by template expansion with default 500, where
  a property with a reference takes the runtime value from the store and a missing
  reference resolves to the default of the property.
\<close>

definition resolve_property :: "store \<Rightarrow> property \<Rightarrow> val option" where
  "resolve_property st p =
     (case Reference p of
        None \<Rightarrow> Default p
      | Some r \<Rightarrow> (case st (Resource r, Path r) of Some v \<Rightarrow> Some v | None \<Rightarrow> Default p))"

definition ResolveStatusCode :: "on_error \<Rightarrow> store \<Rightarrow> int" where
  "ResolveStatusCode e st =
     (case Status e of
        None \<Rightarrow> 500
      | Some p \<Rightarrow> (case resolve_property st p of Some (VInt n) \<Rightarrow> n | _ \<Rightarrow> 500))"

text \<open>
  For the examples: clones that are equal to their originals, an error object with nothing
  set, a status property with a literal value, and the flow \<open>todo\<close> with one node \<open>query\<close>.
\<close>

definition plain_clone :: clone_methods where
  "plain_clone = \<lparr>CloneProperty = (\<lambda>p. p), CloneParameterMap = (\<lambda>m. m), CloneOnError = (\<lambda>e. e)\<rparr>"

definition empty_on_error :: on_error where
  "empty_on_error = \<lparr>Response = None, Status = None, Message = None, Params = Map.empty\<rparr>"

definition literal_status :: "int \<Rightarrow> property" where
  "literal_status n = Property TypeInt64 LabelOptional (Some (VInt n)) None []"

definition todo_flow :: "on_error option \<Rightarrow> on_error option \<Rightarrow> flow" where
  "todo_flow flow_on_error node_on_error =
     (mk_flow ''todo'' [(mk_node ''query'')\<lparr>OnError := node_on_error\<rparr>])\<lparr>GetOnError := flow_on_error\<rparr>"

subsection \<open>What the resolution returns\<close>

lemma DefaultOnError_Some:
  "DefaultOnError (Some e) = Some e' \<Longrightarrow>
     Status e' = (if Status e = None
        then Some (Property TypeInt64 LabelOptional None (Some \<lparr>Resource = ''error'', Path = ''status''\<rparr>) [])
        else Status e)
     \<and> Message e' = (if Message e = None
        then Some (Property TypeString LabelOptional None (Some \<lparr>Resource = ''error'', Path = ''message''\<rparr>) [])
        else Message e)
     \<and> Response e' = Response e \<and> Params e' = Params e"
  by (auto simp: DefaultOnError_def Let_def)

lemma DefaultOnError_total: "\<exists>e'. DefaultOnError (Some e) = Some e'"
  by (simp add: DefaultOnError_def Let_def)

lemma ResolveErrors_flow_Inr:
  assumes "GetOnError f = Some e"
  shows "\<exists>f' e'. ResolveErrors_flow c err f = Inr f' \<and> GetOnError f' = Some e'
      \<and> Status e' = (if Status e = None
          then Some (Property TypeInt64 LabelOptional None (Some \<lparr>Resource = ''error'', Path = ''status''\<rparr>) [])
          else Status e)
      \<and> Message e' = (if Message e = None
          then Some (Property TypeString LabelOptional None (Some \<lparr>Resource = ''error'', Path = ''message''\<rparr>) [])
          else Message e)
      \<and> Params e' = Params e
      \<and> Response e' = (if Response e = None then CloneParameterMap c err else Response e)
      \<and> GetName f' = GetName f
      \<and> GetNodes f' = map (ResolveErrors_node c (Some e')) (GetNodes f)"
proof -
  obtain d where d: "DefaultOnError (Some e) = Some d"
    using DefaultOnError_total by blast
  note dd = DefaultOnError_Some [OF d]
  show ?thesis
    using assms d dd by (auto simp: ResolveErrors_flow_def Let_def)
qed

lemma ResolveErrors_Inr:
  "\<forall>f\<in>set flows. GetOnError f \<noteq> None \<Longrightarrow>
     \<exists>flows'. ResolveErrors c flows err = Inr flows' \<and> length flows' = length flows
       \<and> (\<forall>i<length flows. ResolveErrors_flow c err (flows ! i) = Inr (flows' ! i))"
proof (induction flows)
  case Nil
  then show ?case by simp
next
  case (Cons f flows)
  then obtain e where e: "GetOnError f = Some e" by auto
  from ResolveErrors_flow_Inr [OF e, of c err]
  obtain f' where f': "ResolveErrors_flow c err f = Inr f'" by blast
  from Cons obtain flows' where fs: "ResolveErrors c flows err = Inr flows'"
    "length flows' = length flows"
    "\<forall>i<length flows. ResolveErrors_flow c err (flows ! i) = Inr (flows' ! i)"
    by auto
  have "\<forall>i<length (f # flows). ResolveErrors_flow c err ((f # flows) ! i) = Inr ((f' # flows') ! i)"
    using f' fs(3) by (auto simp: nth_Cons split: nat.splits)
  with f' fs show ?case by simp
qed

lemma ResolveErrors_panic:
  "\<exists>f\<in>set flows. GetOnError f = None \<Longrightarrow> ResolveErrors c flows err = Inl NilPointerDereference"
proof (induction flows)
  case Nil
  then show ?case by simp
next
  case (Cons f flows)
  show ?case
  proof (cases "GetOnError f")
    case None
    then show ?thesis by (simp add: ResolveErrors_flow_def DefaultOnError_def)
  next
    case (Some e)
    with Cons have "ResolveErrors c flows err = Inl NilPointerDereference" by auto
    then show ?thesis by (simp split: sum.splits) (metis panic.exhaust)
  qed
qed

lemma MergeOnError_Some:
  "\<exists>l'. MergeOnError c (Some l) (Some r) = Some l'
      \<and> Message l' = (if Message l = None then CloneProperty c (Message r) else Message l)
      \<and> Status l' = (if Status l = None then CloneProperty c (Status r) else Status l)
      \<and> Params l' = (if dom (Params l) = {}
           then (\<lambda>key. map_option (CloneProperty c) (Params r key)) else Params l)
      \<and> Response l' = (if Response l = None then CloneParameterMap c (Response r) else Response l)"
  by (auto simp: MergeOnError_def Let_def)

lemma ResolveErrors_nth:
  assumes "\<forall>f\<in>set flows. GetOnError f \<noteq> None" and "i < length flows"
  shows "\<exists>flows' e'. ResolveErrors c flows err = Inr flows' \<and> length flows' = length flows
      \<and> ResolveErrors_flow c err (flows ! i) = Inr (flows' ! i)
      \<and> GetOnError (flows' ! i) = Some e'
      \<and> GetNodes (flows' ! i) = map (ResolveErrors_node c (Some e')) (GetNodes (flows ! i))"
proof -
  from ResolveErrors_Inr [OF assms(1), of c err] assms(2)
  obtain flows' where r: "ResolveErrors c flows err = Inr flows'" "length flows' = length flows"
    "ResolveErrors_flow c err (flows ! i) = Inr (flows' ! i)"
    by blast
  from assms obtain e where e: "GetOnError (flows ! i) = Some e"
    by (metis nth_mem not_None_eq)
  from ResolveErrors_flow_Inr [OF e, of c err] r(3)
  obtain e' where "GetOnError (flows' ! i) = Some e'"
    "GetNodes (flows' ! i) = map (ResolveErrors_node c (Some e')) (GetNodes (flows ! i))"
    by auto
  with r show ?thesis by blast
qed

subsection \<open>The default error object (claim C1)\<close>

text \<open>
  Claim C1, as the code has it. Take a flow whose \<open>on_error\<close> object is there and defines
  neither status nor message, and a node of it without an \<open>on_error\<close> of its own. When
  every flow has an \<open>on_error\<close> object and the clone of an error object is equal to it,
  \<open>ResolveErrors\<close> returns, and the node and the flow carry the built-in default
  properties: the status is an optional int64 property that refers to \<open>error:status\<close>, the
  message an optional string property that refers to \<open>error:message\<close>. Neither has a
  literal default.
\<close>

theorem ResolveErrors_default:
  assumes "\<forall>f\<in>set flows. GetOnError f \<noteq> None"
    and "i < length flows" and "GetOnError (flows ! i) = Some e"
    and "Status e = None" and "Message e = None"
    and "j < length (GetNodes (flows ! i))" and "OnError (GetNodes (flows ! i) ! j) = None"
    and "\<forall>x. CloneOnError c (Some x) = Some x"
  shows "\<exists>flows' e'. ResolveErrors c flows err = Inr flows'
      \<and> GetOnError (flows' ! i) = Some e'
      \<and> OnError (GetNodes (flows' ! i) ! j) = Some e'
      \<and> Status e' = Some (Property TypeInt64 LabelOptional None
           (Some \<lparr>Resource = ''error'', Path = ''status''\<rparr>) [])
      \<and> Message e' = Some (Property TypeString LabelOptional None
           (Some \<lparr>Resource = ''error'', Path = ''message''\<rparr>) [])"
proof -
  from ResolveErrors_nth [OF assms(1,2), of c err]
  obtain flows' e' where r: "ResolveErrors c flows err = Inr flows'"
    "ResolveErrors_flow c err (flows ! i) = Inr (flows' ! i)"
    "GetOnError (flows' ! i) = Some e'"
    "GetNodes (flows' ! i) = map (ResolveErrors_node c (Some e')) (GetNodes (flows ! i))"
    by blast
  from ResolveErrors_flow_Inr [OF assms(3), of c err] r(2,3) assms(4,5)
  have s: "Status e' = Some (Property TypeInt64 LabelOptional None
           (Some \<lparr>Resource = ''error'', Path = ''status''\<rparr>) [])"
    "Message e' = Some (Property TypeString LabelOptional None
           (Some \<lparr>Resource = ''error'', Path = ''message''\<rparr>) [])"
    by auto
  have "OnError (GetNodes (flows' ! i) ! j) = Some e'"
    using assms(6,7,8) r(4) by (simp add: ResolveErrors_node_def)
  with r(1,3) s show ?thesis by blast
qed

theorem ResolveErrors_default_witness:
  "\<exists>flows' e'. ResolveErrors plain_clone [todo_flow (Some empty_on_error) None] None = Inr flows'
      \<and> OnError (GetNodes (flows' ! 0) ! 0) = Some e'
      \<and> Status e' = Some (Property TypeInt64 LabelOptional None
           (Some \<lparr>Resource = ''error'', Path = ''status''\<rparr>) [])
      \<and> Message e' = Some (Property TypeString LabelOptional None
           (Some \<lparr>Resource = ''error'', Path = ''message''\<rparr>) [])"
  using ResolveErrors_default [of "[todo_flow (Some empty_on_error) None]" 0 empty_on_error 0
      plain_clone None]
  by (simp add: todo_flow_def mk_flow_def mk_node_def empty_on_error_def plain_clone_def) blast

text \<open>
  The claim as stated has the status equal to 500. The status that \<open>DefaultOnError\<close> sets
  is not the literal 500: it has no default and refers to \<open>error:status\<close>, so it follows
  the status stored for the error, here 404.
\<close>

theorem ResolveErrors_status_500_counterexample:
  "\<exists>flows' e' p. ResolveErrors plain_clone [todo_flow (Some empty_on_error) None] None = Inr flows'
      \<and> OnError (GetNodes (flows' ! 0) ! 0) = Some e'
      \<and> Status e' = Some p
      \<and> Default p = None
      \<and> Reference p = Some \<lparr>Resource = ''error'', Path = ''status''\<rparr>
      \<and> p \<noteq> literal_status 500
      \<and> ResolveStatusCode e' [(''error'', ''status'') \<mapsto> VInt 404] = 404"
  by (simp add: todo_flow_def mk_flow_def mk_node_def empty_on_error_def plain_clone_def
      ResolveErrors_flow_def DefaultOnError_def ResolveErrors_node_def Let_def
      literal_status_def ResolveStatusCode_def resolve_property_def)

subsection \<open>The node's own settings win (claim C2)\<close>

text \<open>
  Claim C2. \<open>MergeOnError\<close> on two objects leaves each field of the left one that is set
  (message, status, non-empty params, response) as it is, and fills each unset field with
  the clone of the right one's field. Hence, after \<open>ResolveErrors\<close>, a node with an
  \<open>on_error\<close> of its own keeps every field it had set, and its unset fields are clones
  of the fields of the flow's resolved \<open>on_error\<close>.
\<close>

theorem MergeOnError_left_wins:
  "(\<exists>l'. MergeOnError c (Some l) (Some r) = Some l'
      \<and> Message l' = (if Message l = None then CloneProperty c (Message r) else Message l)
      \<and> Status l' = (if Status l = None then CloneProperty c (Status r) else Status l)
      \<and> Params l' = (if dom (Params l) = {}
           then (\<lambda>key. map_option (CloneProperty c) (Params r key)) else Params l)
      \<and> Response l' = (if Response l = None then CloneParameterMap c (Response r) else Response l))
   \<and> ((\<forall>f\<in>set flows. GetOnError f \<noteq> None) \<and> i < length flows
        \<and> j < length (GetNodes (flows ! i)) \<and> OnError (GetNodes (flows ! i) ! j) = Some l
      \<longrightarrow> (\<exists>flows' e' l'. ResolveErrors c flows err = Inr flows'
            \<and> GetOnError (flows' ! i) = Some e'
            \<and> OnError (GetNodes (flows' ! i) ! j) = Some l'
            \<and> Message l' = (if Message l = None then CloneProperty c (Message e') else Message l)
            \<and> Status l' = (if Status l = None then CloneProperty c (Status e') else Status l)
            \<and> Params l' = (if dom (Params l) = {}
                 then (\<lambda>key. map_option (CloneProperty c) (Params e' key)) else Params l)
            \<and> Response l' = (if Response l = None then CloneParameterMap c (Response e')
                 else Response l)))"
proof (intro conjI impI)
  show "\<exists>l'. MergeOnError c (Some l) (Some r) = Some l'
      \<and> Message l' = (if Message l = None then CloneProperty c (Message r) else Message l)
      \<and> Status l' = (if Status l = None then CloneProperty c (Status r) else Status l)
      \<and> Params l' = (if dom (Params l) = {}
           then (\<lambda>key. map_option (CloneProperty c) (Params r key)) else Params l)
      \<and> Response l' = (if Response l = None then CloneParameterMap c (Response r) else Response l)"
    by (rule MergeOnError_Some)
next
  assume a: "(\<forall>f\<in>set flows. GetOnError f \<noteq> None) \<and> i < length flows
        \<and> j < length (GetNodes (flows ! i)) \<and> OnError (GetNodes (flows ! i) ! j) = Some l"
  then obtain flows' e' where r: "ResolveErrors c flows err = Inr flows'"
    "GetOnError (flows' ! i) = Some e'"
    "GetNodes (flows' ! i) = map (ResolveErrors_node c (Some e')) (GetNodes (flows ! i))"
    using ResolveErrors_nth [of flows i c err] by blast
  have n: "OnError (GetNodes (flows' ! i) ! j) = MergeOnError c (Some l) (Some e')"
    using a r(3) by (simp add: ResolveErrors_node_def)
  from MergeOnError_Some [of c l e'] n r(1,2)
  show "\<exists>flows' e' l'. ResolveErrors c flows err = Inr flows'
            \<and> GetOnError (flows' ! i) = Some e'
            \<and> OnError (GetNodes (flows' ! i) ! j) = Some l'
            \<and> Message l' = (if Message l = None then CloneProperty c (Message e') else Message l)
            \<and> Status l' = (if Status l = None then CloneProperty c (Status e') else Status l)
            \<and> Params l' = (if dom (Params l) = {}
                 then (\<lambda>key. map_option (CloneProperty c) (Params e' key)) else Params l)
            \<and> Response l' = (if Response l = None then CloneParameterMap c (Response e')
                 else Response l)"
    by auto
qed

theorem MergeOnError_left_wins_witness:
  "\<exists>flows' l'. ResolveErrors plain_clone
        [todo_flow (Some (empty_on_error\<lparr>Status := Some (literal_status 500)\<rparr>))
           (Some (empty_on_error\<lparr>Status := Some (literal_status 404)\<rparr>))] None = Inr flows'
      \<and> OnError (GetNodes (flows' ! 0) ! 0) = Some l'
      \<and> Status l' = Some (literal_status 404)
      \<and> Message l' = Some (Property TypeString LabelOptional None
           (Some \<lparr>Resource = ''error'', Path = ''message''\<rparr>) [])"
  using MergeOnError_left_wins [where c = plain_clone and i = 0 and j = 0 and err = None
      and l = "empty_on_error\<lparr>Status := Some (literal_status 404)\<rparr>"
      and flows = "[todo_flow (Some (empty_on_error\<lparr>Status := Some (literal_status 500)\<rparr>))
           (Some (empty_on_error\<lparr>Status := Some (literal_status 404)\<rparr>))]"]
  by (simp add: todo_flow_def mk_flow_def mk_node_def empty_on_error_def plain_clone_def
      ResolveErrors_flow_def DefaultOnError_def ResolveErrors_node_def MergeOnError_def Let_def
      literal_status_def)

section \<open>Package grpc: the listener\<close>

text \<open>A Go error: the text that \<open>Error()\<close> returns and the error it wraps, if any.\<close>

datatype error = Error string "error option"

fun Error_text :: "error \<Rightarrow> string" where
  "Error_text (Error text cause) = text"

text \<open>
  Modelled from the spec: \<open>transport.Unwrap\<close> is declared outside the files at hand; the
  spec has the dispatcher look up the error object of the root cause of the error.
\<close>

fun Unwrap :: "error \<Rightarrow> error" where
  "Unwrap (Error text None) = Error text None"
| "Unwrap (Error text (Some cause)) = Unwrap cause"

text \<open>The gRPC codes that the listener uses.\<close>

datatype code =
  OK | InvalidArgument | Unauthenticated | PermissionDenied | NotFound | DeadlineExceeded
  | AlreadyExists | ResourceExhausted | Internal | Unimplemented | Unavailable | Unknown

text \<open>
  Modelled from the spec: \<open>CodeFromStatus\<close> is declared outside the files at hand; the spec
  gives its table: 2xx is OK, 400 InvalidArgument, 401 Unauthenticated, 403 PermissionDenied,
  404 NotFound, 408 DeadlineExceeded, 409 AlreadyExists, 429 ResourceExhausted, 500 Internal,
  501 Unimplemented, 503 Unavailable, 504 DeadlineExceeded, and Unknown otherwise.
\<close>

definition CodeFromStatus :: "int \<Rightarrow> code" where
  "CodeFromStatus status =
     (if 200 \<le> status \<and> status < 300 then OK
      else if status = 400 then InvalidArgument
      else if status = 401 then Unauthenticated
      else if status = 403 then PermissionDenied
      else if status = 404 then NotFound
      else if status = 408 then DeadlineExceeded
      else if status = 409 then AlreadyExists
      else if status = 429 then ResourceExhausted
      else if status = 500 then Internal
      else if status = 501 then Unimplemented
      else if status = 503 then Unavailable
      else if status = 504 then DeadlineExceeded
      else Unknown)"

text \<open>
  The collaborators of the listener are interfaces declared outside the files at hand; each
  is a record of the methods that the listener calls. A method that writes to the store
  takes the store and returns the new one. A reader is the result of reading it to the
  end.
\<close>

type_synonym MD = "(string \<times> string) list"
type_synonym rpc_MD = "(string \<times> string list) list"

record flow_manager =
  NewStore :: store
  Do :: "store \<Rightarrow> error option \<times> store"

record request =
  Meta_Unmarshal :: "MD \<Rightarrow> store \<Rightarrow> store"
  Meta_Marshal :: "store \<Rightarrow> MD"
  Codec_Unmarshal :: "string \<Rightarrow> store \<Rightarrow> error option \<times> store"
  Codec_Marshal :: "store \<Rightarrow> error + (error + string)"

record error_object =
  ResolveMessage :: "store \<Rightarrow> string"
  ResolveStatus :: "store \<Rightarrow> int"

text \<open>
  The endpoint, the method (which embeds the endpoint), the service and the listener, with
  the fields that \<open>Handle\<close> and \<open>handler\<close> read and write.
\<close>

record endpoint =
  Endpoint_Options :: "string \<rightharpoonup> string"
  Endpoint_Flow :: flow_manager
  Endpoint_Request :: "request option"
  Endpoint_Response :: "request option"
  Endpoint_Errs :: "error \<Rightarrow> error_object option"

record grpc_method =
  Method_Endpoint :: endpoint
  Method_fqn :: string
  Method_name :: string
  Method_flow :: flow_manager

record service =
  Service_pkg :: string
  Service_name :: string
  Service_methods :: "string \<rightharpoonup> grpc_method"
  Service_proto :: "string option"

record listener =
  Listener_addr :: string
  Listener_methods :: "string \<rightharpoonup> grpc_method"
  Listener_services :: "string \<rightharpoonup> service"

text \<open>
  The functions of the packages \<open>grpc\<close>, \<open>transport\<close> and \<open>proto\<close> that are declared outside
  the files at hand are parameters: \<open>NewCodec\<close> returns the endpoint as it has updated it,
  \<open>NewServiceDescriptor\<close> the file with the service added, \<open>Build\<close> the file descriptor.
\<close>

record endpoint_options =
  Options_Package :: string
  Options_Service :: string
  Options_Method :: string

record proto_file =
  File_Name :: string
  File_Package :: string
  File_Services :: "(string \<times> (string \<rightharpoonup> grpc_method)) list"

record grpc_library =
  ParseEndpointOptions :: "endpoint \<Rightarrow> error + endpoint_options"
  NewCodec :: "endpoint \<Rightarrow> error + endpoint"
  NewServiceDescriptor :: "proto_file \<Rightarrow> string \<Rightarrow> (string \<rightharpoonup> grpc_method) \<Rightarrow> error + proto_file"
  Build :: "proto_file \<Rightarrow> error + string"
  CopyRPCMD :: "rpc_MD \<Rightarrow> MD"
  CopyMD :: "MD \<Rightarrow> rpc_MD"









text \<open>
  What \<open>handler\<close> returns: \<open>nil\<close>, an error as it got it, or the value of
  \<open>grpc.Errorf(code, format, args...)\<close>, kept as the code, the format and the arguments that
  the call is given (the library formats the message, and returns \<open>nil\<close> for the code OK).
  Slicing an empty method name with \<open>fqn[1:]\<close> is a run-time panic. The outcome also records
  the store, if one was created, whether the flow was executed, and what was sent.
\<close>

datatype handler_return =
  Return_nil
  | Return_error error
  | Return_Errorf code string "string list"
  | Panic

record stream =
  MethodFromServerStream :: "string option"
  RecvMsg :: "error + string"
  FromIncomingContext :: "rpc_MD option"
  SendMsg :: "string \<Rightarrow> error option"

record outcome =
  Returned :: handler_return
  Store :: "store option"
  Executed :: bool
  Sent :: "string option"
  Trailer :: "rpc_MD option"

text \<open>
  \<open>handler\<close>, in the order of its steps: \<open>handler_decode\<close> is the block under
  \<open>method.Request != nil\<close>, \<open>handler_do\<close> the call of the flow with its error path,
  \<open>handler_respond\<close> the block under \<open>method.Response != nil\<close>.
\<close>

definition handler_respond :: "grpc_library \<Rightarrow> grpc_method \<Rightarrow> stream \<Rightarrow> store \<Rightarrow> outcome" where
  "handler_respond lib m strm st =
     (case Endpoint_Response (Method_Endpoint m) of
        None \<Rightarrow> \<lparr>Returned = Return_nil, Store = Some st, Executed = True, Sent = None, Trailer = None\<rparr>
      | Some response \<Rightarrow>
          (let header = Meta_Marshal response st
           in case Codec_Marshal response st of
                Inl err \<Rightarrow>
                  \<lparr>Returned = Return_Errorf ResourceExhausted ''invalid response body: %s'' [Error_text err],
                   Store = Some st, Executed = True, Sent = None, Trailer = None\<rparr>
              | Inr reader \<Rightarrow>
                  (case reader of
                     Inl err \<Rightarrow>
                       \<lparr>Returned = Return_Errorf ResourceExhausted
                           ''unable to read full response body: %s'' [Error_text err],
                        Store = Some st, Executed = True, Sent = None, Trailer = None\<rparr>
                   | Inr bb \<Rightarrow>
                       (case SendMsg strm bb of
                          Some err \<Rightarrow>
                            \<lparr>Returned = Return_Errorf Internal ''unknown error: %s'' [Error_text err],
                             Store = Some st, Executed = True, Sent = None, Trailer = None\<rparr>
                        | None \<Rightarrow>
                            \<lparr>Returned = Return_nil, Store = Some st, Executed = True,
                             Sent = Some bb, Trailer = Some (CopyMD lib header)\<rparr>))))"

definition handler_do :: "grpc_library \<Rightarrow> grpc_method \<Rightarrow> stream \<Rightarrow> store \<Rightarrow> outcome" where
  "handler_do lib m strm st =
     (case Do (Method_flow m) st of
        (Some err, st') \<Rightarrow>
          (case Endpoint_Errs (Method_Endpoint m) (Unwrap err) of
             None \<Rightarrow>
               \<lparr>Returned = Return_Errorf Internal (Error_text err) [],
                Store = Some st', Executed = True, Sent = None, Trailer = None\<rparr>
           | Some object \<Rightarrow>
               (let message = ResolveMessage object st';
                    status = ResolveStatus object st'
                in \<lparr>Returned = Return_Errorf (CodeFromStatus status) message [],
                    Store = Some st', Executed = True, Sent = None, Trailer = None\<rparr>))
      | (None, st') \<Rightarrow> handler_respond lib m strm st')"

definition handler_decode :: "grpc_library \<Rightarrow> grpc_method \<Rightarrow> stream \<Rightarrow> string \<Rightarrow> store \<Rightarrow> error option \<times> store" where
  "handler_decode lib m strm payload st =
     (case Endpoint_Request (Method_Endpoint m) of
        None \<Rightarrow> (None, st)
      | Some request \<Rightarrow>
          (let st1 = (case FromIncomingContext strm of
                        Some header \<Rightarrow> Meta_Unmarshal request (CopyRPCMD lib header) st
                      | None \<Rightarrow> st)
           in Codec_Unmarshal request payload st1))"

definition handler :: "grpc_library \<Rightarrow> listener \<Rightarrow> stream \<Rightarrow> outcome" where
  "handler lib l strm =
     (case MethodFromServerStream strm of
        None \<Rightarrow>
          \<lparr>Returned = Return_Errorf Internal ''low level server stream not exists in context'' [],
           Store = None, Executed = False, Sent = None, Trailer = None\<rparr>
      | Some fqn \<Rightarrow>
          (if fqn = [] then
             \<lparr>Returned = Panic, Store = None, Executed = False, Sent = None, Trailer = None\<rparr>
           else case Listener_methods l (drop 1 fqn) of
             None \<Rightarrow>
               \<lparr>Returned = Return_Errorf Unimplemented ''unknown method: %s'' [fqn],
                Store = None, Executed = False, Sent = None, Trailer = None\<rparr>
           | Some m \<Rightarrow>
               (case RecvMsg strm of
                  Inl err \<Rightarrow>
                    \<lparr>Returned = Return_error err, Store = None, Executed = False, Sent = None,
                     Trailer = None\<rparr>
                | Inr payload \<Rightarrow>
                    (case handler_decode lib m strm payload (NewStore (Method_flow m)) of
                       (Some err, st) \<Rightarrow>
                         \<lparr>Returned = Return_Errorf ResourceExhausted
                             ''invalid message body: %s'' [Error_text err],
                          Store = Some st, Executed = False, Sent = None, Trailer = None\<rparr>
                     | (None, st) \<Rightarrow> handler_do lib m strm st))))"


text \<open>
  For the examples: an endpoint of the service \<open>proto.Service\<close> whose codec accepts the
  body \<open>{}\<close> only, a flow that returns a given result, an error object for the error
  \<open>todo not found\<close>, and a library that needs a method name in the options.
\<close>

definition todo_request :: request where
  "todo_request =
     \<lparr>Meta_Unmarshal = (\<lambda>header st. st), Meta_Marshal = (\<lambda>st. []),
      Codec_Unmarshal = (\<lambda>payload st.
        if payload = ''{}'' then (None, st) else (Some (Error ''unexpected token'' None), st)),
      Codec_Marshal = (\<lambda>st. Inr (Inr ''{}''))\<rparr>"

definition todo_manager :: "error option \<Rightarrow> flow_manager" where
  "todo_manager result = \<lparr>NewStore = Map.empty, Do = (\<lambda>st. (result, st))\<rparr>"

definition todo_errs :: "error \<Rightarrow> error_object option" where
  "todo_errs err =
     (if err = Error ''todo not found'' None
      then Some \<lparr>ResolveMessage = (\<lambda>st. ''no such todo''), ResolveStatus = (\<lambda>st. 404)\<rparr>
      else None)"

definition todo_endpoint :: "string \<Rightarrow> error option \<Rightarrow> endpoint" where
  "todo_endpoint name result =
     \<lparr>Endpoint_Options = [''package'' \<mapsto> ''proto'', ''service'' \<mapsto> ''Service'', ''method'' \<mapsto> name],
      Endpoint_Flow = todo_manager result, Endpoint_Request = Some todo_request,
      Endpoint_Response = Some todo_request, Endpoint_Errs = todo_errs\<rparr>"

definition todo_library :: grpc_library where
  "todo_library =
     \<lparr>ParseEndpointOptions = (\<lambda>ep.
        case (Endpoint_Options ep ''package'', Endpoint_Options ep ''service'',
              Endpoint_Options ep ''method'') of
          (Some p, Some s, Some m) \<Rightarrow>
            if m = [] then Inl (Error ''missing method'' None)
            else Inr \<lparr>Options_Package = p, Options_Service = s, Options_Method = m\<rparr>
        | _ \<Rightarrow> Inl (Error ''missing option'' None)),
      NewCodec = (\<lambda>ep. Inr ep),
      NewServiceDescriptor = (\<lambda>file name methods. Inr (file\<lparr>File_Services := [(name, methods)]\<rparr>)),
      Build = (\<lambda>file. Inr (File_Name file)),
      CopyRPCMD = map (\<lambda>(k, vs). (k, concat vs)),
      CopyMD = map (\<lambda>(k, v). (k, [v]))\<rparr>"

definition todo_listener :: "error option \<Rightarrow> listener" where
  "todo_listener result =
     \<lparr>Listener_addr = '':50051'',
      Listener_methods = [''proto.Service/GetTodo'' \<mapsto>
        \<lparr>Method_Endpoint = todo_endpoint ''GetTodo'' result, Method_fqn = ''proto.Service/GetTodo'',
         Method_name = ''GetTodo'', Method_flow = todo_manager result\<rparr>],
      Listener_services = Map.empty\<rparr>"

definition todo_stream :: "string \<Rightarrow> string \<Rightarrow> stream" where
  "todo_stream fqn payload =
     \<lparr>MethodFromServerStream = Some fqn, RecvMsg = Inr payload, FromIncomingContext = None,
      SendMsg = (\<lambda>bb. None)\<rparr>"


subsection \<open>What the loops of Handle return\<close>












subsection \<open>Handle replaces the routing table or leaves it (claim C3)\<close>



subsection \<open>Unknown method (claim C10)\<close>

text \<open>
  Claim C10. For a request whose method name (never empty for gRPC) is not in the routing
  table after the leading slash is cut off, \<open>handler\<close> returns the error of
  \<open>grpc.Errorf\<close> with the code Unimplemented; no store is created, no flow executed and
  nothing sent.
\<close>

theorem handler_unknown_method:
  assumes "MethodFromServerStream strm = Some fqn" and "fqn \<noteq> []"
    and "Listener_methods l (drop 1 fqn) = None"
  shows "handler lib l strm =
      \<lparr>Returned = Return_Errorf Unimplemented ''unknown method: %s'' [fqn],
       Store = None, Executed = False, Sent = None, Trailer = None\<rparr>"
  using assms by (simp add: handler_def)

theorem handler_unknown_method_witness:
  "Returned (handler todo_library (todo_listener None) (todo_stream ''/proto.Service/GetUser'' ''{}''))
     = Return_Errorf Unimplemented ''unknown method: %s'' [''/proto.Service/GetUser'']
   \<and> Store (handler todo_library (todo_listener None) (todo_stream ''/proto.Service/GetUser'' ''{}'')) = None
   \<and> \<not> Executed (handler todo_library (todo_listener None) (todo_stream ''/proto.Service/GetUser'' ''{}''))"
  using handler_unknown_method [of "todo_stream ''/proto.Service/GetUser'' ''{}''"
      "''/proto.Service/GetUser''" "todo_listener None" todo_library]
  by (simp add: todo_stream_def todo_listener_def)

subsection \<open>Invalid message body (claim C4)\<close>

text \<open>
  Claim C4. For a request to a known method whose message was received and whose body the
  request codec of the endpoint fails to unmarshal into the store (after the metadata of
  the request, if any), \<open>handler\<close> returns the error of \<open>grpc.Errorf\<close> with the code
  ResourceExhausted and the text of the codec error as argument; the flow is not executed
  and nothing is sent.
\<close>

theorem handler_invalid_body:
  assumes "MethodFromServerStream strm = Some fqn" and "fqn \<noteq> []"
    and "Listener_methods l (drop 1 fqn) = Some m"
    and "RecvMsg strm = Inr payload"
    and "Endpoint_Request (Method_Endpoint m) = Some request"
    and "Codec_Unmarshal request payload
           (case FromIncomingContext strm of
              Some header \<Rightarrow> Meta_Unmarshal request (CopyRPCMD lib header) (NewStore (Method_flow m))
            | None \<Rightarrow> NewStore (Method_flow m)) = (Some err, st)"
  shows "Returned (handler lib l strm) =
        Return_Errorf ResourceExhausted ''invalid message body: %s'' [Error_text err]
    \<and> \<not> Executed (handler lib l strm)
    \<and> Sent (handler lib l strm) = None"
  using assms by (simp add: handler_def handler_decode_def Let_def)

theorem handler_invalid_body_witness:
  "Returned (handler todo_library (todo_listener None) (todo_stream ''/proto.Service/GetTodo'' ''{''))
     = Return_Errorf ResourceExhausted ''invalid message body: %s'' [''unexpected token'']
   \<and> \<not> Executed (handler todo_library (todo_listener None) (todo_stream ''/proto.Service/GetTodo'' ''{''))"
  using handler_invalid_body [where strm = "todo_stream ''/proto.Service/GetTodo'' ''{''"
      and fqn = "''/proto.Service/GetTodo''" and l = "todo_listener None" and lib = todo_library
      and payload = "''{''" and request = todo_request and err = "Error ''unexpected token'' None"
      and st = Map.empty
      and m = "\<lparr>Method_Endpoint = todo_endpoint ''GetTodo'' None, Method_fqn = ''proto.Service/GetTodo'',
         Method_name = ''GetTodo'', Method_flow = todo_manager None\<rparr>"]
  by (simp add: todo_stream_def todo_listener_def todo_endpoint_def todo_request_def
      todo_manager_def)

subsection \<open>A failing flow (claim C5)\<close>



section \<open>Package constructor: the flow managers\<close>

text \<open>The endpoint of a manifest names its flow and its listener.\<close>

record specs_endpoint =
  Flow :: string
  Listener :: string
  Options :: "string \<rightharpoonup> string"

record manifest =
  Endpoints :: "specs_endpoint list"
  Flows :: "flow list"

text \<open>
  Modelled from the spec: \<open>Manifest.GetFlow\<close> is declared outside the files at hand; the
  spec binds an endpoint to the flow of the manifest that has the name it gives.
\<close>

definition GetFlow :: "manifest \<Rightarrow> string \<Rightarrow> flow option" where
  "GetFlow m name = find (\<lambda>f. GetName f = name) (Flows m)"

text \<open>
  The collaborators of the constructor are interfaces declared outside the files at hand;
  each is a record of the methods that the constructor calls, and the collections of the
  options are maps from a name to the constructor or listener registered under it.
  \<open>strict.DefineCaller\<close> is a parameter that returns its error; the types that it defines
  in the node are not followed. What \<open>flow.NewRequest\<close>, \<open>flow.NewCall\<close>, \<open>flow.NewNode\<close> and
  \<open>flow.NewManager\<close> return is a record of their arguments.
\<close>

record schema_service =
  Schema_GetName :: string
  Schema_GetFullyQualifiedName :: string
  Schema_GetTransport :: string
  Schema_GetCodec :: string
  Schema_GetOptions :: "string \<rightharpoonup> string"

record transport_call =
  GetMethod :: "string \<Rightarrow> string"

record caller_constructor =
  Dial :: "schema_service \<Rightarrow> string list \<Rightarrow> (string \<rightharpoonup> string) \<Rightarrow> error + transport_call"

record codec_constructor =
  New :: "string \<Rightarrow> parameter_map option \<Rightarrow> error + string"

record flow_request =
  Request_Functions :: "string list"
  Request_Codec :: "string option"
  Request_Metadata :: "string \<times> (string \<times> property) list"

record flow_call =
  Call_Node :: node
  Call_Transport :: "transport_call option"
  Call_TransportMethod :: "string option"
  Call_FlowRequest :: flow_request
  Call_FlowResponse :: flow_request

record flow_node =
  Node_Node :: node
  Node_Call :: "flow_call option"
  Node_Rollback :: "flow_call option"

record flow_manager_spec =
  Manager_Name :: string
  Manager_Nodes :: "flow_node list"

record forward =
  Forward_Service :: schema_service
  Forward_Header :: "(string \<times> property) list option"

record transport_endpoint =
  Transport_Listener :: string
  Transport_Options :: "string \<rightharpoonup> string"
  Transport_Request :: parameter_map
  Transport_Response :: parameter_map
  Transport_Flow :: "flow_manager_spec option"
  Transport_Forward :: "forward option"

record transport_listener =
  Listener_Handle :: "transport_endpoint list \<Rightarrow> (string \<rightharpoonup> codec_constructor) \<Rightarrow> error option"

record constructor_options =
  Schema_GetService :: "string \<Rightarrow> schema_service option"
  Callers_Get :: "string \<rightharpoonup> caller_constructor"
  Codec_Get :: "string \<rightharpoonup> codec_constructor"
  Listeners_Get :: "string \<rightharpoonup> transport_listener"
  Options_Functions :: "string list"
  DefineCaller :: "node \<Rightarrow> manifest \<Rightarrow> transport_call \<Rightarrow> flow \<Rightarrow> error option"

text \<open>
  A function of the constructor returns an error or panics: \<open>Request\<close> reads the header
  of its parameter map, which is a run-time panic for \<open>nil\<close>, and \<open>Listeners\<close> calls
  \<open>Handle\<close> on the listener that it looks up. The errors of \<open>trace.New\<close> carry their text.
\<close>

datatype abort = Returns error | Panics

definition quoted :: "string \<Rightarrow> string" where
  "quoted s = [CHR 0x27] @ s @ [CHR 0x27]"

definition Request :: "node \<Rightarrow> codec_constructor option \<Rightarrow> parameter_map option \<Rightarrow> abort + flow_request" where
  "Request n constructor params =
     (case (case constructor of
              None \<Rightarrow> Inr None
            | Some c \<Rightarrow> (case New c (Name n) params of
                           Inl err \<Rightarrow> Inl (Returns err)
                         | Inr manager \<Rightarrow> Inr (Some manager))) of
        Inl a \<Rightarrow> Inl a
      | Inr codec \<Rightarrow>
          (case params of
             None \<Rightarrow> Inl Panics
           | Some p \<Rightarrow>
               Inr \<lparr>Request_Functions = Functions p, Request_Codec = codec,
                    Request_Metadata = (Name n, Header p)\<rparr>))"

definition NewServiceCall ::
  "constructor_options \<Rightarrow> manifest \<Rightarrow> node \<Rightarrow> call option \<Rightarrow> flow \<Rightarrow> abort + flow_call option" where
  "NewServiceCall options m n call manager =
     (case call of
        None \<Rightarrow> Inr None
      | Some c \<Rightarrow>
          if Call_Service c = [] then
            Inl (Returns (Error (''invalid service name, no service name configured in ''
              @ quoted (Name n)) None))
          else case Schema_GetService options (Call_Service c) of
            None \<Rightarrow>
              Inl (Returns (Error (''the service for '' @ quoted (Call_Service c)
                @ '' was not found in '' @ quoted (Name n)) None))
          | Some service \<Rightarrow>
              (let constructor = Callers_Get options (Schema_GetTransport service);
                   schema = Schema_GetService options (Schema_GetFullyQualifiedName service)
               in case schema of
                    None \<Rightarrow>
                      Inl (Returns (Error (''service not found ''
                        @ quoted (Schema_GetFullyQualifiedName service)) None))
                  | Some sch \<Rightarrow>
                      (case constructor of
                         None \<Rightarrow>
                           Inl (Returns (Error (''transport constructor not found ''
                             @ quoted (Schema_GetTransport service) @ '' for service ''
                             @ quoted (Schema_GetName service)) None))
                       | Some cons \<Rightarrow>
                           (case Dial cons sch (Options_Functions options) (Schema_GetOptions service) of
                              Inl err \<Rightarrow> Inl (Returns err)
                            | Inr transport \<Rightarrow>
                                (case DefineCaller options n m transport manager of
                                   Some err \<Rightarrow> Inl (Returns err)
                                 | None \<Rightarrow>
                                     (case Codec_Get options (Schema_GetCodec service) of
                                        None \<Rightarrow>
                                          Inl (Returns (Error (''codec not found ''
                                            @ quoted (Schema_GetCodec service)) None))
                                      | Some codec \<Rightarrow>
                                          (case Request n (Some codec) (Call_Request c) of
                                             Inl a \<Rightarrow> Inl a
                                           | Inr request \<Rightarrow>
                                               (case Request n (Some codec) (Call_Response c) of
                                                  Inl a \<Rightarrow> Inl a
                                                | Inr response \<Rightarrow>
                                                    Inr (Some
                                                      \<lparr>Call_Node = n, Call_Transport = Some transport,
                                                       Call_TransportMethod =
                                                         Some (GetMethod transport (Call_Method c)),
                                                       Call_FlowRequest = request,
                                                       Call_FlowResponse = response\<rparr>)))))))))"

text \<open>
  \<open>Call\<close> of the source; the name is taken by the field of the node.
\<close>

definition Call_fn ::
  "constructor_options \<Rightarrow> manifest \<Rightarrow> node \<Rightarrow> call option \<Rightarrow> flow \<Rightarrow> abort + flow_call option" where
  "Call_fn options m n call manager =
     (case call of
        None \<Rightarrow> Inr None
      | Some c \<Rightarrow>
          if Call_Service c \<noteq> [] then NewServiceCall options m n call manager
          else case Request n None (Call_Request c) of
            Inl a \<Rightarrow> Inl a
          | Inr request \<Rightarrow>
              (case Request n None (Call_Response c) of
                 Inl a \<Rightarrow> Inl a
               | Inr response \<Rightarrow>
                   Inr (Some \<lparr>Call_Node = n, Call_Transport = None, Call_TransportMethod = None,
                              Call_FlowRequest = request, Call_FlowResponse = response\<rparr>)))"

definition Forward :: "manifest \<Rightarrow> call option \<Rightarrow> constructor_options \<Rightarrow> abort + forward option" where
  "Forward m call options =
     (case call of
        None \<Rightarrow> Inr None
      | Some c \<Rightarrow>
          (case Schema_GetService options (Call_Service c) of
             None \<Rightarrow>
               Inl (Returns (Error (''the service for '' @ quoted (Call_Method c)
                 @ '' was not found'') None))
           | Some service \<Rightarrow>
               Inr (Some \<lparr>Forward_Service = service,
                          Forward_Header = map_option Header (Call_Request c)\<rparr>)))"

text \<open>
  \<open>Listeners\<close>: the first loop collects the endpoints of each listener and skips the
  slots that are \<open>nil\<close>; the second loop hands each collection to its listener, in the
  order \<open>keys\<close> in which \<open>range\<close> visits the collections.
\<close>

fun Listeners_collect ::
  "constructor_options \<Rightarrow> transport_endpoint option list \<Rightarrow> (string \<rightharpoonup> transport_endpoint list)
     \<Rightarrow> error + (string \<rightharpoonup> transport_endpoint list)" where
  "Listeners_collect options [] collections = Inr collections"
| "Listeners_collect options (None # endpoints) collections =
     Listeners_collect options endpoints collections"
| "Listeners_collect options (Some e # endpoints) collections =
     (case Listeners_Get options (Transport_Listener e) of
        None \<Rightarrow> Inl (Error (''unknown listener '' @ Transport_Listener e) None)
      | Some l \<Rightarrow>
          Listeners_collect options endpoints
            (collections(Transport_Listener e \<mapsto>
               (case collections (Transport_Listener e) of None \<Rightarrow> [] | Some c \<Rightarrow> c) @ [e])))"

fun Listeners_handle ::
  "constructor_options \<Rightarrow> string list \<Rightarrow> (string \<rightharpoonup> transport_endpoint list) \<Rightarrow> abort option" where
  "Listeners_handle options [] collections = None"
| "Listeners_handle options (key # keys) collections =
     (case collections key of
        None \<Rightarrow> Listeners_handle options keys collections
      | Some collection \<Rightarrow>
          (case Listeners_Get options key of
             None \<Rightarrow> Some Panics
           | Some l \<Rightarrow>
               (case Listener_Handle l collection (Codec_Get options) of
                  Some err \<Rightarrow> Some (Returns err)
                | None \<Rightarrow> Listeners_handle options keys collections)))"

definition Listeners ::
  "string list \<Rightarrow> transport_endpoint option list \<Rightarrow> constructor_options \<Rightarrow> abort option" where
  "Listeners keys endpoints options =
     (case Listeners_collect options endpoints Map.empty of
        Inl err \<Rightarrow> Some (Returns err)
      | Inr collections \<Rightarrow> Listeners_handle options keys collections)"

text \<open>
  \<open>FlowManager\<close>: the slot of an endpoint whose flow is not found stays \<open>nil\<close>.
  \<open>FlowManager_over\<close> is the function on a given list of endpoints of the manifest.
\<close>

fun FlowManager_nodes ::
  "constructor_options \<Rightarrow> manifest \<Rightarrow> flow \<Rightarrow> node list \<Rightarrow> abort + flow_node list" where
  "FlowManager_nodes options m manager [] = Inr []"
| "FlowManager_nodes options m manager (n # nodes) =
     (case Call_fn options m n (Call n) manager of
        Inl a \<Rightarrow> Inl a
      | Inr caller \<Rightarrow>
          (case Call_fn options m n (Rollback n) manager of
             Inl a \<Rightarrow> Inl a
           | Inr rollback \<Rightarrow>
               (case FlowManager_nodes options m manager nodes of
                  Inl a \<Rightarrow> Inl a
                | Inr rest \<Rightarrow>
                    Inr (\<lparr>Node_Node = n, Node_Call = caller, Node_Rollback = rollback\<rparr> # rest))))"

definition FlowManager_endpoint ::
  "constructor_options \<Rightarrow> manifest \<Rightarrow> specs_endpoint \<Rightarrow> abort + transport_endpoint option" where
  "FlowManager_endpoint options m endpoint =
     (case GetFlow m (Flow endpoint) of
        None \<Rightarrow> Inr None
      | Some manager \<Rightarrow>
          (case FlowManager_nodes options m manager (GetNodes manager) of
             Inl a \<Rightarrow> Inl a
           | Inr nodes \<Rightarrow>
               (case Forward m (GetForward manager) options of
                  Inl a \<Rightarrow> Inl a
                | Inr fwd \<Rightarrow>
                    Inr (Some
                      \<lparr>Transport_Listener = Listener endpoint,
                       Transport_Options = Options endpoint,
                       Transport_Request = GetInput manager,
                       Transport_Response = GetOutput manager,
                       Transport_Flow = Some \<lparr>Manager_Name = GetName manager, Manager_Nodes = nodes\<rparr>,
                       Transport_Forward = fwd\<rparr>))))"

fun FlowManager_endpoints ::
  "constructor_options \<Rightarrow> manifest \<Rightarrow> specs_endpoint list \<Rightarrow> abort + transport_endpoint option list" where
  "FlowManager_endpoints options m [] = Inr []"
| "FlowManager_endpoints options m (endpoint # endpoints) =
     (case FlowManager_endpoint options m endpoint of
        Inl a \<Rightarrow> Inl a
      | Inr slot \<Rightarrow>
          (case FlowManager_endpoints options m endpoints of
             Inl a \<Rightarrow> Inl a
           | Inr slots \<Rightarrow> Inr (slot # slots)))"

definition FlowManager_over ::
  "constructor_options \<Rightarrow> string list \<Rightarrow> manifest \<Rightarrow> specs_endpoint list
     \<Rightarrow> abort + transport_endpoint option list" where
  "FlowManager_over options keys m es =
     (case FlowManager_endpoints options m es of
        Inl a \<Rightarrow> Inl a
      | Inr endpoints \<Rightarrow>
          (case Listeners keys endpoints options of
             Some a \<Rightarrow> Inl a
           | None \<Rightarrow> Inr endpoints))"

definition FlowManager ::
  "constructor_options \<Rightarrow> string list \<Rightarrow> manifest \<Rightarrow> abort + transport_endpoint option list" where
  "FlowManager options keys m = FlowManager_over options keys m (Endpoints m)"

text \<open>
  A service call names a transport or codec constructor that is not there: the call has
  a service, the schema has that service, and the transport or the codec of the service
  is not in the collections. The two properties of a manifest are stated for endpoints
  whose flow is found. \<open>parameter_maps_present\<close>: every call has its request and response.
\<close>

definition call_unknown :: "constructor_options \<Rightarrow> call option \<Rightarrow> bool" where
  "call_unknown options call =
     (case call of
        None \<Rightarrow> False
      | Some c \<Rightarrow>
          Call_Service c \<noteq> [] \<and>
          (case Schema_GetService options (Call_Service c) of
             None \<Rightarrow> False
           | Some service \<Rightarrow>
               Callers_Get options (Schema_GetTransport service) = None
               \<or> Codec_Get options (Schema_GetCodec service) = None))"

definition unknown_constructor :: "constructor_options \<Rightarrow> manifest \<Rightarrow> bool" where
  "unknown_constructor options m =
     (\<exists>e\<in>set (Endpoints m). \<exists>f. GetFlow m (Flow e) = Some f \<and>
        (\<exists>n\<in>set (GetNodes f). call_unknown options (Call n) \<or> call_unknown options (Rollback n)))"

definition unknown_listener :: "constructor_options \<Rightarrow> manifest \<Rightarrow> bool" where
  "unknown_listener options m =
     (\<exists>e\<in>set (Endpoints m). GetFlow m (Flow e) \<noteq> None \<and> Listeners_Get options (Listener e) = None)"

definition call_has_maps :: "call option \<Rightarrow> bool" where
  "call_has_maps call =
     (case call of None \<Rightarrow> True | Some c \<Rightarrow> Call_Request c \<noteq> None \<and> Call_Response c \<noteq> None)"

definition parameter_maps_present :: "manifest \<Rightarrow> bool" where
  "parameter_maps_present m =
     (\<forall>f\<in>set (Flows m). \<forall>n\<in>set (GetNodes f). call_has_maps (Call n) \<and> call_has_maps (Rollback n))"

text \<open>
  For the examples: the service \<open>proto.TODO\<close> with the transport \<open>http\<close> and the codec
  \<open>json\<close>, options with the given codecs and listeners, and a manifest with the flow
  \<open>todo\<close> and one endpoint for the given flow name and listener.
\<close>

definition todo_service :: schema_service where
  "todo_service =
     \<lparr>Schema_GetName = ''TODO'', Schema_GetFullyQualifiedName = ''proto.TODO'',
      Schema_GetTransport = ''http'', Schema_GetCodec = ''json'', Schema_GetOptions = Map.empty\<rparr>"

definition todo_options :: "string list \<Rightarrow> string list \<Rightarrow> constructor_options" where
  "todo_options codecs listeners =
     \<lparr>Schema_GetService = (\<lambda>name. if name = ''proto.TODO'' then Some todo_service else None),
      Callers_Get = [''http'' \<mapsto> \<lparr>Dial = (\<lambda>schema functions opts. Inr \<lparr>GetMethod = (\<lambda>name. name)\<rparr>)\<rparr>],
      Codec_Get = (\<lambda>name. if name \<in> set codecs
                     then Some \<lparr>New = (\<lambda>resource params. Inr name)\<rparr> else None),
      Listeners_Get = (\<lambda>name. if name \<in> set listeners
                     then Some \<lparr>Listener_Handle = (\<lambda>endpoints constructors. None)\<rparr> else None),
      Options_Functions = [],
      DefineCaller = (\<lambda>n m transport manager. None)\<rparr>"

definition todo_call :: call where
  "todo_call =
     \<lparr>Call_Service = ''proto.TODO'', Call_Method = ''Get'',
      Call_Request = Some empty_parameter_map, Call_Response = Some empty_parameter_map\<rparr>"

definition todo_manifest :: "string \<Rightarrow> string \<Rightarrow> manifest" where
  "todo_manifest flow_name listener_name =
     \<lparr>Endpoints = [\<lparr>Flow = flow_name, Listener = listener_name, Options = Map.empty\<rparr>],
      Flows = [mk_flow ''todo'' [(mk_node ''query'')\<lparr>Call := Some todo_call\<rparr>]]\<rparr>"

subsection \<open>Where the construction fails, and where it cannot panic\<close>

lemma NewServiceCall_Inr:
  "NewServiceCall options m n (Some c) manager = Inr r \<Longrightarrow> \<not> call_unknown options (Some c)"
  by (auto simp: NewServiceCall_def call_unknown_def Let_def split: if_splits option.splits sum.splits)

lemma Call_fn_Inr:
  "Call_fn options m n call manager = Inr r \<Longrightarrow> \<not> call_unknown options call"
proof (cases call)
  case None
  then show ?thesis by (simp add: call_unknown_def)
next
  case (Some c)
  assume r: "Call_fn options m n call manager = Inr r"
  show ?thesis
  proof (cases "Call_Service c = []")
    case True
    with Some show ?thesis by (simp add: call_unknown_def)
  next
    case False
    with Some r have "NewServiceCall options m n (Some c) manager = Inr r"
      by (simp add: Call_fn_def)
    from NewServiceCall_Inr [OF this] Some show ?thesis by simp
  qed
qed

lemma FlowManager_nodes_Inr:
  "FlowManager_nodes options m manager nodes = Inr r \<Longrightarrow>
     \<forall>n\<in>set nodes. \<not> call_unknown options (Call n) \<and> \<not> call_unknown options (Rollback n)"
proof (induction nodes arbitrary: r)
  case Nil
  then show ?case by simp
next
  case (Cons n nodes)
  from Cons.prems obtain caller rollback rest where
    c: "Call_fn options m n (Call n) manager = Inr caller"
    and rb: "Call_fn options m n (Rollback n) manager = Inr rollback"
    and rest: "FlowManager_nodes options m manager nodes = Inr rest"
    by (auto split: sum.splits)
  from Call_fn_Inr [OF c] Call_fn_Inr [OF rb] Cons.IH [OF rest] show ?case by simp
qed

lemma FlowManager_endpoint_Inr:
  assumes "FlowManager_endpoint options m e = Inr slot" and "GetFlow m (Flow e) = Some f"
  shows "(\<exists>te. slot = Some te \<and> Transport_Listener te = Listener e)
    \<and> (\<forall>n\<in>set (GetNodes f). \<not> call_unknown options (Call n) \<and> \<not> call_unknown options (Rollback n))"
proof -
  from assms obtain nodes where n: "FlowManager_nodes options m f (GetNodes f) = Inr nodes"
    by (auto simp: FlowManager_endpoint_def split: sum.splits)
  from assms have "\<exists>te. slot = Some te \<and> Transport_Listener te = Listener e"
    by (auto simp: FlowManager_endpoint_def split: sum.splits)
  with FlowManager_nodes_Inr [OF n] show ?thesis by simp
qed

lemma FlowManager_endpoints_Inr:
  "FlowManager_endpoints options m es = Inr slots \<Longrightarrow> e \<in> set es \<Longrightarrow>
     \<exists>slot\<in>set slots. FlowManager_endpoint options m e = Inr slot"
proof (induction es arbitrary: slots)
  case Nil
  then show ?case by simp
next
  case (Cons x es)
  from Cons.prems(1) obtain slot rest where
    s: "FlowManager_endpoint options m x = Inr slot"
    and r: "FlowManager_endpoints options m es = Inr rest"
    and sl: "slots = slot # rest"
    by (auto split: sum.splits)
  show ?case
  proof (cases "e = x")
    case True
    with s sl show ?thesis by simp
  next
    case False
    with Cons.prems(2) have "e \<in> set es" by simp
    from Cons.IH [OF r this] sl show ?thesis by auto
  qed
qed

lemma Listeners_collect_unknown:
  "Some te \<in> set slots \<Longrightarrow> Listeners_Get options (Transport_Listener te) = None \<Longrightarrow>
     \<exists>err. Listeners_collect options slots c = Inl err"
proof (induction slots arbitrary: c)
  case Nil
  then show ?case by simp
next
  case (Cons s slots)
  show ?case
  proof (cases s)
    case None
    with Cons show ?thesis by auto
  next
    case (Some x)
    show ?thesis
    proof (cases "Listeners_Get options (Transport_Listener x)")
      case None
      with Some show ?thesis by simp
    next
      case (Some l)
      with \<open>s = Some x\<close> Cons.prems have "Some te \<in> set slots" by auto
      from Cons.IH [OF this Cons.prems(2)] Some \<open>s = Some x\<close> show ?thesis by simp
    qed
  qed
qed

lemma FlowManager_over_unknown_listener:
  assumes "e \<in> set es" and "GetFlow m (Flow e) \<noteq> None"
    and "Listeners_Get options (Listener e) = None"
  shows "\<exists>a. FlowManager_over options keys m es = Inl a"
proof (cases "FlowManager_endpoints options m es")
  case (Inl a)
  then show ?thesis by (simp add: FlowManager_over_def)
next
  case (Inr slots)
  from assms(2) obtain f where f: "GetFlow m (Flow e) = Some f" by auto
  from FlowManager_endpoints_Inr [OF Inr assms(1)] obtain slot where
    s: "slot \<in> set slots" "FlowManager_endpoint options m e = Inr slot"
    by blast
  from FlowManager_endpoint_Inr [OF s(2) f] obtain te where
    te: "slot = Some te" "Transport_Listener te = Listener e"
    by blast
  from s(1) te assms(3) Listeners_collect_unknown [of te slots options Map.empty]
  obtain err where "Listeners_collect options slots Map.empty = Inl err" by auto
  with Inr show ?thesis by (simp add: FlowManager_over_def Listeners_def)
qed

lemma FlowManager_over_unknown_constructor:
  assumes "e \<in> set es" and "GetFlow m (Flow e) = Some f" and "n \<in> set (GetNodes f)"
    and "call_unknown options (Call n) \<or> call_unknown options (Rollback n)"
  shows "\<exists>a. FlowManager_over options keys m es = Inl a"
proof (cases "FlowManager_endpoints options m es")
  case (Inl a)
  then show ?thesis by (simp add: FlowManager_over_def)
next
  case (Inr slots)
  from FlowManager_endpoints_Inr [OF Inr assms(1)] obtain slot where
    "FlowManager_endpoint options m e = Inr slot"
    by blast
  from FlowManager_endpoint_Inr [OF this assms(2)] assms(3,4) show ?thesis by blast
qed

lemma Request_no_panic: "Request n constructor (Some p) \<noteq> Inl Panics"
  by (simp add: Request_def split: option.splits sum.splits)

lemma Call_fn_no_panic:
  "call_has_maps call \<Longrightarrow> Call_fn options m n call manager \<noteq> Inl Panics"
  by (auto simp: call_has_maps_def Call_fn_def NewServiceCall_def Let_def Request_no_panic
      split: option.splits sum.splits)

lemma FlowManager_nodes_no_panic:
  "\<forall>n\<in>set nodes. call_has_maps (Call n) \<and> call_has_maps (Rollback n) \<Longrightarrow>
     FlowManager_nodes options m manager nodes \<noteq> Inl Panics"
proof (induction nodes)
  case Nil
  then show ?case by simp
next
  case (Cons n nodes)
  then have "Call_fn options m n (Call n) manager \<noteq> Inl Panics"
    "Call_fn options m n (Rollback n) manager \<noteq> Inl Panics"
    "FlowManager_nodes options m manager nodes \<noteq> Inl Panics"
    by (simp_all add: Call_fn_no_panic)
  then show ?case by (auto split: sum.splits)
qed

lemma GetFlow_mem: "GetFlow m name = Some f \<Longrightarrow> f \<in> set (Flows m)"
  by (auto simp: GetFlow_def find_Some_iff)

lemma FlowManager_endpoint_no_panic:
  "parameter_maps_present m \<Longrightarrow> FlowManager_endpoint options m e \<noteq> Inl Panics"
proof (cases "GetFlow m (Flow e)")
  case None
  then show ?thesis by (simp add: FlowManager_endpoint_def)
next
  case (Some f)
  assume "parameter_maps_present m"
  with GetFlow_mem [OF Some] have "FlowManager_nodes options m f (GetNodes f) \<noteq> Inl Panics"
    by (intro FlowManager_nodes_no_panic) (auto simp: parameter_maps_present_def)
  with Some show ?thesis
    by (auto simp: FlowManager_endpoint_def Forward_def split: sum.splits option.splits)
qed

lemma FlowManager_endpoints_no_panic:
  "parameter_maps_present m \<Longrightarrow> FlowManager_endpoints options m es \<noteq> Inl Panics"
proof (induction es)
  case Nil
  then show ?case by simp
next
  case (Cons e es)
  with FlowManager_endpoint_no_panic [of m options e] show ?case
    by (auto split: sum.splits)
qed

lemma Listeners_collect_known:
  "Listeners_collect options slots c = Inr c' \<Longrightarrow>
     \<forall>k\<in>dom c. Listeners_Get options k \<noteq> None \<Longrightarrow>
     \<forall>k\<in>dom c'. Listeners_Get options k \<noteq> None"
proof (induction slots arbitrary: c)
  case Nil
  then show ?case by simp
next
  case (Cons s slots)
  show ?case
  proof (cases s)
    case None
    with Cons show ?thesis by simp
  next
    case (Some x)
    with Cons.prems(1) obtain l where l: "Listeners_Get options (Transport_Listener x) = Some l"
      by (auto split: option.splits)
    let ?c = "c(Transport_Listener x \<mapsto>
        (case c (Transport_Listener x) of None \<Rightarrow> [] | Some c \<Rightarrow> c) @ [x])"
    from Some l Cons.prems(1) have r: "Listeners_collect options slots ?c = Inr c'" by simp
    have "\<forall>k\<in>dom ?c. Listeners_Get options k \<noteq> None"
      using Cons.prems(2) l by auto
    from Cons.IH [OF r this] show ?thesis .
  qed
qed

lemma Listeners_handle_no_panic:
  "\<forall>k\<in>dom c. Listeners_Get options k \<noteq> None \<Longrightarrow> Listeners_handle options keys c \<noteq> Some Panics"
proof (induction keys)
  case Nil
  then show ?case by simp
next
  case (Cons key keys)
  show ?case
  proof (cases "c key")
    case None
    with Cons show ?thesis by simp
  next
    case (Some collection)
    then have "key \<in> dom c" by auto
    with Cons.prems obtain l where "Listeners_Get options key = Some l" by auto
    with Some Cons show ?thesis by (simp split: option.splits)
  qed
qed

lemma Listeners_no_panic: "Listeners keys slots options \<noteq> Some Panics"
proof (cases "Listeners_collect options slots Map.empty")
  case (Inl err)
  then show ?thesis by (simp add: Listeners_def)
next
  case (Inr c)
  from Listeners_collect_known [OF Inr] have "\<forall>k\<in>dom c. Listeners_Get options k \<noteq> None" by simp
  from Listeners_handle_no_panic [OF this] Inr show ?thesis by (simp add: Listeners_def)
qed

lemma FlowManager_over_no_panic:
  "parameter_maps_present m \<Longrightarrow> FlowManager_over options keys m es \<noteq> Inl Panics"
  using FlowManager_endpoints_no_panic [of m options es] Listeners_no_panic [of keys _ options]
  by (auto simp: FlowManager_over_def split: sum.splits option.splits)

lemma FlowManager_endpoint_no_flow:
  "GetFlow m (Flow e) = None \<Longrightarrow> FlowManager_endpoint options m e = Inr None"
  by (simp add: FlowManager_endpoint_def)

lemma FlowManager_endpoints_length:
  "FlowManager_endpoints options m es = Inr slots \<Longrightarrow> length slots = length es"
  by (induction es arbitrary: slots) (auto split: sum.splits)

lemma FlowManager_endpoints_drop:
  assumes "GetFlow m (Flow e) = None"
  shows "FlowManager_endpoints options m (es1 @ e # es2) =
      (case FlowManager_endpoints options m (es1 @ es2) of
         Inl a \<Rightarrow> Inl a
       | Inr slots \<Rightarrow> Inr (take (length es1) slots @ None # drop (length es1) slots))"
proof (induction es1)
  case Nil
  show ?case
    by (simp add: FlowManager_endpoint_no_flow [OF assms] split: sum.splits)
next
  case (Cons x es1)
  show ?case
  proof (cases "FlowManager_endpoint options m x")
    case (Inl a)
    then show ?thesis by simp
  next
    case (Inr slot)
    then show ?thesis
      by (simp add: Cons.IH split: sum.splits)
  qed
qed

lemma Listeners_collect_drop:
  "Listeners_collect options (xs @ None # ys) c = Listeners_collect options (xs @ ys) c"
proof (induction xs arbitrary: c)
  case Nil
  show ?case by simp
next
  case (Cons x xs)
  show ?case
  proof (cases x)
    case None
    with Cons show ?thesis by simp
  next
    case (Some e)
    show ?thesis
    proof (cases "Listeners_Get options (Transport_Listener e)")
      case None
      with Some show ?thesis by simp
    next
      case l: (Some l)
      let ?c = "c(Transport_Listener e \<mapsto>
          (case c (Transport_Listener e) of None \<Rightarrow> [] | Some c \<Rightarrow> c) @ [e])"
      have s1: "Listeners_collect options ((x # xs) @ None # ys) c =
          Listeners_collect options (xs @ None # ys) ?c"
        using Some l by simp
      have s2: "Listeners_collect options ((x # xs) @ ys) c = Listeners_collect options (xs @ ys) ?c"
        using Some l by simp
      show ?thesis unfolding s1 s2 by (rule Cons)
    qed
  qed
qed

lemma Listeners_drop:
  "Listeners keys (take k slots @ None # drop k slots) options = Listeners keys slots options"
  using Listeners_collect_drop [of options "take k slots" "drop k slots" Map.empty]
  by (simp add: Listeners_def)

lemma FlowManager_over_drop:
  assumes "GetFlow m (Flow e) = None"
  shows "FlowManager_over options keys m (es1 @ e # es2) =
      (case FlowManager_over options keys m (es1 @ es2) of
         Inl a \<Rightarrow> Inl a
       | Inr slots \<Rightarrow> Inr (take (length es1) slots @ None # drop (length es1) slots))"
  by (simp add: FlowManager_over_def FlowManager_endpoints_drop [OF assms] Listeners_drop
      split: sum.splits option.splits)

lemma Listeners_collect_all_None:
  "\<forall>s\<in>set slots. s = None \<Longrightarrow> Listeners_collect options slots c = Inr c"
  by (induction slots) auto

lemma Listeners_handle_empty: "Listeners_handle options keys Map.empty = None"
  by (induction keys) auto

lemma FlowManager_endpoints_all_None:
  "\<forall>e\<in>set es. GetFlow m (Flow e) = None \<Longrightarrow>
     FlowManager_endpoints options m es = Inr (map (\<lambda>e. None) es)"
  by (induction es) (auto simp: FlowManager_endpoint_no_flow)

lemma FlowManager_over_all_None:
  assumes "\<forall>e\<in>set es. GetFlow m (Flow e) = None"
  shows "FlowManager_over options keys m es = Inr (map (\<lambda>e. None) es)"
proof -
  have "Listeners_collect options (map (\<lambda>e. None) es) Map.empty = Inr Map.empty"
    by (rule Listeners_collect_all_None) simp
  then show ?thesis
    by (simp add: FlowManager_over_def FlowManager_endpoints_all_None [OF assms] Listeners_def
        Listeners_handle_empty)
qed

lemma todo_maps: "parameter_maps_present (todo_manifest f l)"
  by (simp add: parameter_maps_present_def todo_manifest_def mk_flow_def mk_node_def
      call_has_maps_def todo_call_def)

subsection \<open>Unknown listener, transport or codec (claim C8)\<close>

text \<open>
  Claim C8, as the code has it. The construction of the flow managers fails whenever an
  endpoint whose flow is found in the manifest names a listener that is not in the
  collection, or a node of the flow of such an endpoint has a call or rollback whose
  service names a transport or codec constructor that is not in the collections. It
  returns an error when every call of the manifest has its request and response.
\<close>

theorem FlowManager_unknown:
  assumes "unknown_listener options m \<or> unknown_constructor options m"
  shows "(\<exists>a. FlowManager options keys m = Inl a)
    \<and> (parameter_maps_present m \<longrightarrow> (\<exists>err. FlowManager options keys m = Inl (Returns err)))"
proof -
  have f: "\<exists>a. FlowManager options keys m = Inl a"
    using assms FlowManager_over_unknown_listener [of _ "Endpoints m" m options keys]
      FlowManager_over_unknown_constructor [of _ "Endpoints m" m _ _ options keys]
    unfolding FlowManager_def unknown_listener_def unknown_constructor_def by blast
  moreover have "\<exists>err. FlowManager options keys m = Inl (Returns err)" if "parameter_maps_present m"
  proof -
    from f obtain a where a: "FlowManager options keys m = Inl a" by blast
    with FlowManager_over_no_panic [OF that, of options keys "Endpoints m"] have "a \<noteq> Panics"
      by (auto simp: FlowManager_def)
    then obtain err where "a = Returns err" by (cases a) auto
    with a show ?thesis by blast
  qed
  ultimately show ?thesis by blast
qed

theorem FlowManager_unknown_witness:
  "unknown_listener (todo_options [''json''] [''http'']) (todo_manifest ''todo'' ''grpc'')
   \<and> (\<exists>err. FlowManager (todo_options [''json''] [''http'']) [] (todo_manifest ''todo'' ''grpc'')
         = Inl (Returns err))
   \<and> unknown_constructor (todo_options [] [''http'']) (todo_manifest ''todo'' ''http'')
   \<and> (\<exists>err. FlowManager (todo_options [] [''http'']) [''http''] (todo_manifest ''todo'' ''http'')
         = Inl (Returns err))"
proof -
  have l: "unknown_listener (todo_options [''json''] [''http'']) (todo_manifest ''todo'' ''grpc'')"
    by (simp add: unknown_listener_def todo_options_def todo_manifest_def GetFlow_def mk_flow_def)
  have c: "unknown_constructor (todo_options [] [''http'']) (todo_manifest ''todo'' ''http'')"
    by (simp add: unknown_constructor_def call_unknown_def todo_options_def todo_manifest_def
        GetFlow_def mk_flow_def mk_node_def todo_call_def todo_service_def)
  from FlowManager_unknown [of "todo_options [''json''] [''http'']" "todo_manifest ''todo'' ''grpc''" "[]"]
    FlowManager_unknown [of "todo_options [] [''http'']" "todo_manifest ''todo'' ''http''" "[''http'']"]
    l c todo_maps
  show ?thesis by blast
qed

text \<open>
  The claim as stated has the construction fail for every endpoint with an unknown
  listener. Here the endpoint names the listener \<open>grpc\<close>, which is not there, and a flow
  \<open>missing\<close>, which is not in the manifest: its slot stays \<open>nil\<close>, \<open>Listeners\<close> skips it and
  the construction returns no error. The flow \<open>todo\<close>, whose call names the missing codec
  \<open>json\<close>, is bound to no endpoint and is not constructed.
\<close>

theorem FlowManager_unknown_listener_counterexample:
  "Listeners_Get (todo_options [] [''http'']) ''grpc'' = None
   \<and> call_unknown (todo_options [] [''http'']) (Some todo_call)
   \<and> FlowManager (todo_options [] [''http'']) [] (todo_manifest ''missing'' ''grpc'') = Inr [None]"
  by (simp add: todo_options_def todo_manifest_def FlowManager_def FlowManager_over_def
      FlowManager_endpoint_def GetFlow_def mk_flow_def Listeners_def call_unknown_def
      todo_call_def todo_service_def)

subsection \<open>An endpoint without a flow is dropped (claim C9)\<close>

text \<open>
  Claim C9. For an endpoint whose flow name is not found in the manifest, the loop of
  \<open>FlowManager\<close> returns no error and leaves the slot \<open>nil\<close>. The construction for the
  manifest is then the construction for the other endpoints with a \<open>nil\<close> slot put in
  at the place of the endpoint; when no endpoint has a flow, it returns the \<open>nil\<close> slots
  and no error.
\<close>

theorem FlowManager_drops_unbound_endpoint:
  assumes "GetFlow m (Flow e) = None"
  shows "FlowManager_endpoint options m e = Inr None
    \<and> (Endpoints m = es1 @ e # es2 \<longrightarrow>
         FlowManager options keys m =
           (case FlowManager_over options keys m (es1 @ es2) of
              Inl a \<Rightarrow> Inl a
            | Inr slots \<Rightarrow> Inr (take (length es1) slots @ None # drop (length es1) slots)))
    \<and> ((\<forall>e'\<in>set (Endpoints m). GetFlow m (Flow e') = None) \<longrightarrow>
         FlowManager options keys m = Inr (map (\<lambda>e'. None) (Endpoints m)))"
  using assms
  by (simp add: FlowManager_endpoint_no_flow FlowManager_def FlowManager_over_drop
      FlowManager_over_all_None)

theorem FlowManager_drops_unbound_endpoint_witness:
  "GetFlow (todo_manifest ''todo'' ''http'') ''missing'' = None
   \<and> (\<exists>te. FlowManager (todo_options [''json''] [''http'']) [''http'']
         ((todo_manifest ''todo'' ''http'')
            \<lparr>Endpoints := [\<lparr>Flow = ''missing'', Listener = ''grpc'', Options = Map.empty\<rparr>,
                           \<lparr>Flow = ''todo'', Listener = ''http'', Options = Map.empty\<rparr>]\<rparr>)
       = Inr [None, Some te])"
proof -
  have g: "GetFlow ((todo_manifest ''todo'' ''http'')
            \<lparr>Endpoints := [\<lparr>Flow = ''missing'', Listener = ''grpc'', Options = Map.empty\<rparr>,
                           \<lparr>Flow = ''todo'', Listener = ''http'', Options = Map.empty\<rparr>]\<rparr>)
        (Flow \<lparr>Flow = ''missing'', Listener = ''grpc'', Options = Map.empty\<rparr>) = None"
    by (simp add: todo_manifest_def GetFlow_def mk_flow_def)
  have o: "\<exists>te. FlowManager_over (todo_options [''json''] [''http'']) [''http'']
        ((todo_manifest ''todo'' ''http'')
            \<lparr>Endpoints := [\<lparr>Flow = ''missing'', Listener = ''grpc'', Options = Map.empty\<rparr>,
                           \<lparr>Flow = ''todo'', Listener = ''http'', Options = Map.empty\<rparr>]\<rparr>)
        ([] @ [\<lparr>Flow = ''todo'', Listener = ''http'', Options = Map.empty\<rparr>]) = Inr [Some te]"
    by (simp add: todo_options_def todo_manifest_def FlowManager_over_def
        FlowManager_endpoint_def GetFlow_def mk_flow_def mk_node_def Listeners_def Call_fn_def
        NewServiceCall_def todo_call_def todo_service_def Request_def Forward_def Let_def
        empty_parameter_map_def)
  have "GetFlow (todo_manifest ''todo'' ''http'') ''missing'' = None"
    by (simp add: todo_manifest_def GetFlow_def mk_flow_def)
  with FlowManager_drops_unbound_endpoint [OF g, of "todo_options [''json''] [''http'']" "[]"
      "[\<lparr>Flow = ''todo'', Listener = ''http'', Options = Map.empty\<rparr>]" "[''http'']"] o
  show ?thesis by auto
qed

end
